theory Spec2Isabelle
  imports Main "HOL-Library.Sublist"
begin

section \<open>Build utilities of \<open>pkg/build/util/util.go\<close>\<close>

text \<open>
  A shallow embedding of the functions of \<open>pkg/build/util/util.go\<close>. Go pointers are
  options of their referent (\<open>None\<close> is \<open>nil\<close>), Go maps are partial functions under an
  option (\<open>None\<close> is the nil map), slices are lists, a run-time panic is the left
  summand of a sum, and a Go result pair \<open>(value, error)\<close> is a pair whose second
  component is \<open>None\<close> for a nil error.
\<close>

subsection \<open>Run-time panics\<close>

datatype panic = NilPointerDereference | SliceBoundsOutOfRange

subsection \<open>Go maps and object metadata\<close>

text \<open>
  A \<open>map[string]string\<close>; \<open>None\<close> is the nil map, which reads like the empty one.
  \<open>mapLookup\<close> is the two-valued read \<open>v, ok := m[k]\<close> (\<open>None\<close> when \<open>ok\<close> is false),
  \<open>mapIndex\<close> the one-valued read \<open>m[k]\<close>, the empty string for a missing key.
\<close>

type_synonym gomap = "(string \<rightharpoonup> string) option"

definition mapLookup :: "gomap \<Rightarrow> string \<Rightarrow> string option" where
  "mapLookup m k = (case m of None \<Rightarrow> None | Some f \<Rightarrow> f k)"

definition mapIndex :: "gomap \<Rightarrow> string \<Rightarrow> string" where
  "mapIndex m k = (case mapLookup m k of None \<Rightarrow> [] | Some v \<Rightarrow> v)"

text \<open>
  Modelled from the spec: the string constants of package \<open>buildapi\<close> that name
  annotations and labels are declared outside the files at hand; the spec lists them as
  fixed metadata keys. They are a parameter \<open>K\<close> of every function that reads one.
\<close>

record buildapi =
  BuildAnnotation :: string
  BuildConfigPausedAnnotation :: string
  BuildNumberAnnotation :: string
  BuildRunPolicyLabel :: string
  BuildConfigLabel :: string
  BuildConfigLabelDeprecated :: string
  BuildConfigAnnotation :: string

text \<open>
  Modelled from the spec: \<open>kapi.ObjectMeta\<close>, which \<open>Build\<close>, \<open>BuildConfig\<close> and \<open>Pod\<close>
  embed, with the four fields the functions read; the embedding is a record extension.
  \<open>GetAnnotations\<close> and \<open>GetLabels\<close> are its accessors of the fields of the same names,
  so they read through the pointer they are called on.
\<close>

record ObjectMeta =
  Namespace :: string
  Name :: string
  Annotations :: gomap
  Labels :: gomap

text \<open>
  Modelled from the spec: the build phases, a string type in \<open>buildapi\<close>; the spec names
  seven values and leaves the list of terminal ones open.
\<close>

datatype BuildPhase =
    BuildPhaseNew | BuildPhasePending | BuildPhaseRunning | BuildPhaseComplete
  | BuildPhaseFailed | BuildPhaseError | BuildPhaseCancelled | BuildPhaseOther string

record BuildStatus =
  Phase :: BuildPhase

record Build = ObjectMeta +
  Status :: BuildStatus

datatype BuildRunPolicy =
  BuildRunPolicyParallel | BuildRunPolicySerial | BuildRunPolicySerialLatestOnly

subsection \<open>Accessors\<close>

definition GetBuildName :: "buildapi \<Rightarrow> 'a ObjectMeta_scheme option \<Rightarrow> string" where
  "GetBuildName K pod =
     (case pod of
        None \<Rightarrow> []
      | Some p \<Rightarrow> mapIndex (Annotations p) (BuildAnnotation K))"

definition IsBuildComplete :: "Build option \<Rightarrow> panic + bool" where
  "IsBuildComplete build =
     (case build of
        None \<Rightarrow> Inl NilPointerDereference
      | Some b \<Rightarrow>
          Inr (Phase (Status b) \<noteq> BuildPhaseRunning \<and> Phase (Status b) \<noteq> BuildPhasePending \<and>
               Phase (Status b) \<noteq> BuildPhaseNew))"

text \<open>\<open>strings.ToLower\<close> is a parameter: it is the standard library's, over Unicode.\<close>

definition IsPaused ::
  "(string \<Rightarrow> string) \<Rightarrow> buildapi \<Rightarrow> 'a ObjectMeta_scheme option \<Rightarrow> panic + bool" where
  "IsPaused ToLower K bc =
     (case bc of
        None \<Rightarrow> Inl NilPointerDereference
      | Some c \<Rightarrow> Inr (ToLower (mapIndex (Annotations c) (BuildConfigPausedAnnotation K)) = ''true''))"

text \<open>
  The scheduling policy of a build. The diagnostic line of the default branch is not
  modelled; it reads \<open>build.Namespace\<close> and \<open>build.Name\<close> after \<open>GetLabels\<close> has read
  through \<open>build\<close> already.
\<close>

definition BuildRunPolicy :: "buildapi \<Rightarrow> Build option \<Rightarrow> panic + BuildRunPolicy" where
  "BuildRunPolicy K build =
     (case build of
        None \<Rightarrow> Inl NilPointerDereference
      | Some b \<Rightarrow>
          (let labels = Labels b in
           case mapLookup labels (BuildRunPolicyLabel K) of
             Some v \<Rightarrow>
               if v = ''Parallel'' then Inr BuildRunPolicyParallel
               else if v = ''Serial'' then Inr BuildRunPolicySerial
               else if v = ''SerialLatestOnly'' then Inr BuildRunPolicySerialLatestOnly
               else Inr BuildRunPolicySerial
           | None \<Rightarrow> Inr BuildRunPolicySerial))"

definition ConfigNameForBuild :: "buildapi \<Rightarrow> Build option \<Rightarrow> string" where
  "ConfigNameForBuild K build =
     (case build of
        None \<Rightarrow> []
      | Some b \<Rightarrow>
          if Annotations b \<noteq> None \<and> mapLookup (Annotations b) (BuildConfigAnnotation K) \<noteq> None
          then mapIndex (Annotations b) (BuildConfigAnnotation K)
          else if mapLookup (Labels b) (BuildConfigLabel K) \<noteq> None
          then mapIndex (Labels b) (BuildConfigLabel K)
          else mapIndex (Labels b) (BuildConfigLabelDeprecated K))"

subsection \<open>Parsing numbers\<close>

text \<open>
  \<open>strconv.ParseUint\<close>, \<open>strconv.ParseInt\<close> and \<open>strconv.Atoi\<close> of the Go standard
  library, for base 10. An error is a \<open>*NumError\<close> with the function's name, the input
  and \<open>ErrSyntax\<close> or \<open>ErrRange\<close>. \<open>IntSize\<close>, the width of \<open>int\<close> (32 or 64), is a
  parameter. Unsigned 64-bit values are natural numbers with the wrap-around written
  out; \<open>int64\<close> values are integers, which the range checks keep within 64 bits.
\<close>

datatype strconv_err = ErrSyntax | ErrRange

datatype error =
    NumError string string strconv_err
  | Errorf string

definition maxUint64 :: nat where
  "maxUint64 = 2 ^ 64 - 1"

text \<open>
  The loop of \<open>ParseUint\<close> over the bytes of \<open>s\<close> with the number \<open>n\<close> read so far. A byte
  that is no decimal digit is a syntax error (a letter is a digit of a larger base: its
  value is at least the base, the same error).
\<close>

fun parseUintLoop :: "nat \<Rightarrow> string \<Rightarrow> nat \<Rightarrow> nat \<times> strconv_err option" where
  "parseUintLoop bitSize [] n = (n, None)"
| "parseUintLoop bitSize (d # s) n =
     (if \<not> (48 \<le> (of_char d :: nat) \<and> (of_char d :: nat) \<le> 57) then (0, Some ErrSyntax)
      else let v = (of_char d :: nat) - 48;
               cutoff = maxUint64 div 10 + 1;
               maxVal = (2 ^ bitSize - 1) mod 2 ^ 64
           in if n \<ge> cutoff then (maxUint64, Some ErrRange)
              else let n' = n * 10;
                       n1 = (n' + v) mod 2 ^ 64
                   in if n1 < n' \<or> n1 > maxVal then (maxUint64, Some ErrRange)
                      else parseUintLoop bitSize s n1)"

definition ParseUint :: "nat \<Rightarrow> string \<Rightarrow> nat \<Rightarrow> nat \<times> error option" where
  "ParseUint IntSize s bitSize0 =
     (let bitSize = (if bitSize0 = 0 then IntSize else bitSize0) in
      if length s < 1 then (0, Some (NumError ''ParseUint'' s ErrSyntax))
      else case parseUintLoop bitSize s 0 of
             (n, None) \<Rightarrow> (n, None)
           | (n, Some e) \<Rightarrow> (n, Some (NumError ''ParseUint'' s e)))"

definition ParseInt :: "nat \<Rightarrow> string \<Rightarrow> nat \<Rightarrow> int \<times> error option" where
  "ParseInt IntSize s0 bitSize0 =
     (let bitSize = (if bitSize0 = 0 then IntSize else bitSize0) in
      if length s0 = 0 then (0, Some (NumError ''ParseInt'' s0 ErrSyntax))
      else
        let neg = (hd s0 = CHR ''-'');
            s = (if hd s0 = CHR ''+'' \<or> hd s0 = CHR ''-'' then tl s0 else s0);
            cutoff = (2 :: nat) ^ (bitSize - 1)
        in case ParseUint IntSize s bitSize of
             (un, Some (NumError f num ErrSyntax)) \<Rightarrow> (0, Some (NumError ''ParseInt'' s0 ErrSyntax))
           | (un, Some (Errorf msg)) \<Rightarrow> (0, Some (Errorf msg))
           | (un, _) \<Rightarrow>
               if \<not> neg \<and> un \<ge> cutoff then (int cutoff - 1, Some (NumError ''ParseInt'' s0 ErrRange))
               else if neg \<and> un > cutoff then (- int cutoff, Some (NumError ''ParseInt'' s0 ErrRange))
               else (if neg then - int un else int un, None))"

definition Atoi :: "nat \<Rightarrow> string \<Rightarrow> int \<times> error option" where
  "Atoi IntSize s = (case ParseInt IntSize s 0 of (i64, err) \<Rightarrow> (i64, err))"

text \<open>
  The largest value \<open>ParseUint\<close> accepts at a bit size, the \<open>maxVal\<close> of its loop. It is
  used to state how the parser behaves at two widths; the parser does not call it.
\<close>

definition maxVal :: "nat \<Rightarrow> nat" where
  "maxVal bitSize = (2 ^ bitSize - 1) mod 2 ^ 64"

subsection \<open>Build numbers\<close>

text \<open>
  \<open>BuildNumber\<close> returns the pair of \<open>strconv.ParseInt(stringNumber, 10, 64)\<close> as it is,
  or 0 and an error made by \<open>fmt.Errorf\<close> from the build's namespace and name.
\<close>

definition BuildNumber :: "buildapi \<Rightarrow> nat \<Rightarrow> Build option \<Rightarrow> panic + (int \<times> error option)" where
  "BuildNumber K IntSize build =
     (case build of
        None \<Rightarrow> Inl NilPointerDereference
      | Some b \<Rightarrow>
          (let annotations = Annotations b in
           case mapLookup annotations (BuildNumberAnnotation K) of
             Some stringNumber \<Rightarrow> Inr (ParseInt IntSize stringNumber 64)
           | None \<Rightarrow>
               Inr (0, Some (Errorf (''build '' @ Namespace b @ ''/'' @ Name b @
                      '' does not have '' @ BuildNumberAnnotation K @ '' annotation'')))))"

definition VersionForBuild :: "buildapi \<Rightarrow> nat \<Rightarrow> Build option \<Rightarrow> int" where
  "VersionForBuild K IntSize build =
     (case build of
        None \<Rightarrow> 0
      | Some b \<Rightarrow>
          (let versionString = mapIndex (Annotations b) (BuildNumberAnnotation K) in
           case Atoi IntSize versionString of
             (version, Some err) \<Rightarrow> 0
           | (version, None) \<Rightarrow> version))"

subsection \<open>The input reference of a strategy\<close>

text \<open>
  Modelled from the spec: the strategy types of \<open>buildapi\<close> are declared outside the
  files at hand. \<open>GetInputReference\<close> takes the address of \<open>From\<close> in the source and the
  custom strategy and returns \<open>From\<close> itself in the Docker strategy, so \<open>From\<close> is an
  object reference in the first two and a pointer to one in the third. The type of
  object references is a parameter. The pointer returned is modelled by its referent.
\<close>

record 'r SourceBuildStrategy =
  SourceFrom :: 'r

record 'r DockerBuildStrategy =
  DockerFrom :: "'r option"

record 'r CustomBuildStrategy =
  CustomFrom :: 'r

record 'r BuildStrategy =
  DockerStrategy :: "'r DockerBuildStrategy option"
  SourceStrategy :: "'r SourceBuildStrategy option"
  CustomStrategy :: "'r CustomBuildStrategy option"

definition GetInputReference :: "'r BuildStrategy \<Rightarrow> 'r option" where
  "GetInputReference strategy =
     (case SourceStrategy strategy of
        Some s \<Rightarrow> Some (SourceFrom s)
      | None \<Rightarrow>
          (case DockerStrategy strategy of
             Some d \<Rightarrow> DockerFrom d
           | None \<Rightarrow>
               (case CustomStrategy strategy of
                  Some c \<Rightarrow> Some (CustomFrom c)
                | None \<Rightarrow> None)))"

subsection \<open>The builds of a build config\<close>

text \<open>
  Modelled from the spec: a build list holds its type and list metadata and its items;
  the two metadata types are parameters. A selector is the label set it was made from.
  \<open>buildapi.LabelValue\<close> is declared outside the files at hand and is a parameter, as is
  the lister \<open>c\<close>, a function of the namespace and the list options that returns a
  pointer to a list and an error.
\<close>

record ('t, 'l) BuildList =
  TypeMeta :: 't
  ListMeta :: 'l
  Items :: "Build list"

record ListOptions =
  LabelSelector :: "string \<rightharpoonup> string"

definition BuildConfigSelector :: "buildapi \<Rightarrow> (string \<Rightarrow> string) \<Rightarrow> string \<Rightarrow> (string \<rightharpoonup> string)" where
  "BuildConfigSelector K LabelValue name = [BuildConfigLabel K \<mapsto> LabelValue name]"

definition BuildConfigSelectorDeprecated :: "buildapi \<Rightarrow> string \<Rightarrow> (string \<rightharpoonup> string)" where
  "BuildConfigSelectorDeprecated K name = [BuildConfigLabelDeprecated K \<mapsto> name]"

text \<open>The loop over \<open>result.Items\<close>, appending to \<open>filteredList.Items\<close>.\<close>

fun filterItems :: "(Build \<Rightarrow> bool) \<Rightarrow> Build list \<Rightarrow> Build list \<Rightarrow> Build list" where
  "filterItems filterFunc [] items = items"
| "filterItems filterFunc (b # bs) items =
     (if filterFunc b then filterItems filterFunc bs (items @ [b])
      else filterItems filterFunc bs items)"

definition BuildConfigBuilds ::
  "(string \<Rightarrow> ListOptions \<Rightarrow> ('t, 'l) BuildList option \<times> 'e option) \<Rightarrow> buildapi \<Rightarrow>
   (string \<Rightarrow> string) \<Rightarrow> string \<Rightarrow> string \<Rightarrow> (Build \<Rightarrow> bool) option \<Rightarrow>
   panic + (('t, 'l) BuildList option \<times> 'e option)" where
  "BuildConfigBuilds c K LabelValue namespace name filterFunc =
     (case c namespace \<lparr>LabelSelector = BuildConfigSelector K LabelValue name\<rparr> of
        (result, Some err) \<Rightarrow> Inr (None, Some err)
      | (result, None) \<Rightarrow>
          (case filterFunc of
             None \<Rightarrow> Inr (result, None)
           | Some f \<Rightarrow>
               (case result of
                  None \<Rightarrow> Inl NilPointerDereference
                | Some r \<Rightarrow>
                    Inr (Some \<lparr>TypeMeta = TypeMeta r, ListMeta = ListMeta r,
                               Items = filterItems f (Items r) []\<rparr>, None))))"

subsection \<open>Environment variables and the trusted merge\<close>

text \<open>
  Modelled from the spec: \<open>kapi.EnvVar\<close> is declared outside the files at hand; the
  spec gives it as a pair of a name and a value. Every function below is stated for
  the extensible record, so that it covers an \<open>EnvVar\<close> with further fields: the merge
  copies whole entries and assigns to \<open>Value\<close> only.
\<close>

record EnvVar =
  Name :: string
  Value :: string

text \<open>The local type \<open>sourceMapItem\<close> of the merge: \<open>index\<close> and \<open>value\<close>.\<close>

record sourceMapItem =
  item_index :: nat
  item_value :: string

text \<open>
  The inner loop over \<open>buildapi.WhitelistEnvVarNames\<close>: it stops at the first
  acceptable name equal to the entry's name. The whitelist itself is declared outside
  the files at hand and is a parameter \<open>W\<close> of the model.
\<close>

fun isAcceptable :: "string list \<Rightarrow> string \<Rightarrow> bool" where
  "isAcceptable [] n = False"
| "isAcceptable (acceptable # W) n = (if n = acceptable then True else isAcceptable W n)"

text \<open>
  The first loop, over \<open>source\<close>. Its state is the counter \<open>index\<close>, the map
  \<open>filteredSourceMap\<close> and the slice \<open>filteredSource\<close>.
\<close>

fun filterSource ::
  "string list \<Rightarrow> 'a EnvVar_scheme list \<Rightarrow> nat \<Rightarrow> (string \<rightharpoonup> sourceMapItem) \<Rightarrow>
   'a EnvVar_scheme list \<Rightarrow> (string \<rightharpoonup> sourceMapItem) \<times> 'a EnvVar_scheme list" where
  "filterSource W [] index filteredSourceMap filteredSource =
     (filteredSourceMap, filteredSource)"
| "filterSource W (env # source) index filteredSourceMap filteredSource =
     (if isAcceptable W (Name env)
      then filterSource W source (index + 1)
             (filteredSourceMap(Name env \<mapsto> \<lparr>item_index = index, item_value = Value env\<rparr>))
             (filteredSource @ [env])
      else filterSource W source index filteredSourceMap filteredSource)"

text \<open>
  The second loop, over \<open>result\<close>, which shares its array with \<open>*output\<close>. The entries
  already visited are \<open>visited\<close>, the entries still to visit are the list argument. The
  expression \<open>append(filteredSource[:v.index], filteredSource[v.index+1:]...)\<close> panics
  exactly when \<open>v.index + 1\<close> exceeds the length of \<open>filteredSource\<close> (the lower bound
  of the second slice expression is checked against the length; the upper bound of the
  first one is checked against the capacity, which is at least the length); otherwise
  it is \<open>filteredSource\<close> without its element at \<open>v.index\<close>. The assignment to
  \<open>result[i].Value\<close> comes first, so that at a panic the array of \<open>*output\<close> already
  holds it: a panic carries the contents of that array.
\<close>

fun walk ::
  "(string \<rightharpoonup> sourceMapItem) \<Rightarrow> bool \<Rightarrow> 'a EnvVar_scheme list \<Rightarrow> 'a EnvVar_scheme list \<Rightarrow>
   'a EnvVar_scheme list \<Rightarrow>
   (panic \<times> 'a EnvVar_scheme list) + ('a EnvVar_scheme list \<times> 'a EnvVar_scheme list)" where
  "walk filteredSourceMap sourcePrecedence visited [] filteredSource =
     Inr (visited, filteredSource)"
| "walk filteredSourceMap sourcePrecedence visited (env # rest) filteredSource =
     (case filteredSourceMap (Name env) of
        None \<Rightarrow> walk filteredSourceMap sourcePrecedence (visited @ [env]) rest filteredSource
      | Some v \<Rightarrow>
          (let env' = (if sourcePrecedence then env\<lparr>Value := item_value v\<rparr> else env)
           in if length filteredSource < item_index v + 1
              then Inl (SliceBoundsOutOfRange, visited @ env' # rest)
              else walk filteredSourceMap sourcePrecedence (visited @ [env']) rest
                     (take (item_index v) filteredSource @
                      drop (item_index v + 1) filteredSource)))"

text \<open>
  \<open>MergeTrustedEnvWithoutDuplicates(source, output, sourcePrecedence)\<close>: the result is
  the final \<open>*output\<close>, or the panic with the contents of the array of \<open>*output\<close>.
\<close>

definition MergeTrustedEnvWithoutDuplicates ::
  "string list \<Rightarrow> 'a EnvVar_scheme list \<Rightarrow> 'a EnvVar_scheme list \<Rightarrow> bool \<Rightarrow>
   (panic \<times> 'a EnvVar_scheme list) + 'a EnvVar_scheme list" where
  "MergeTrustedEnvWithoutDuplicates W source output sourcePrecedence =
     (case filterSource W source 0 Map.empty [] of
        (filteredSourceMap, filteredSource) \<Rightarrow>
          (case walk filteredSourceMap sourcePrecedence [] output filteredSource of
             Inl p \<Rightarrow> Inl p
           | Inr (result, filteredSource') \<Rightarrow> Inr (result @ filteredSource')))"

text \<open>
  What the walk leaves in the place of an entry of \<open>*output\<close> it has visited: the entry
  itself, but for the value of the lookup when the name is found and the source has
  precedence. It is used to state what the walk computes; the walk does not call it.
\<close>

definition overwrite :: "(string \<rightharpoonup> sourceMapItem) \<Rightarrow> bool \<Rightarrow> 'a EnvVar_scheme \<Rightarrow> 'a EnvVar_scheme" where
  "overwrite m sp env = (case m (Name env) of None \<Rightarrow> env
     | Some v \<Rightarrow> if sp then env\<lparr>Value := item_value v\<rparr> else env)"

section \<open>Properties\<close>

subsection \<open>The two loops of the merge\<close>

lemma isAcceptable_iff: "isAcceptable W n \<longleftrightarrow> n \<in> set W"
  by (induction W) auto

lemma filterSource_list:
  "snd (filterSource W source i m fs) = fs @ filter (\<lambda>e. Name e \<in> set W) source"
  by (induction source arbitrary: i m fs) (simp_all add: isAcceptable_iff)

lemma filterSource_map_Some:
  "fst (filterSource W source i m fs) n = Some v \<Longrightarrow>
   m n = Some v \<or> (\<exists>e \<in> set source. Name e = n \<and> n \<in> set W \<and> item_value v = Value e)"
proof (induction source arbitrary: i m fs)
  case Nil
  then show ?case by simp
next
  case (Cons env source)
  show ?case
  proof (cases "isAcceptable W (Name env)")
    case True
    with Cons.prems have
      "fst (filterSource W source (i + 1)
         (m(Name env \<mapsto> \<lparr>item_index = i, item_value = Value env\<rparr>)) (fs @ [env])) n = Some v"
      by simp
    from Cons.IH [OF this] True show ?thesis
      by (auto simp: isAcceptable_iff split: if_splits)
  next
    case False
    with Cons.prems have "fst (filterSource W source i m fs) n = Some v" by simp
    from Cons.IH [OF this] show ?thesis by auto
  qed
qed

lemma filterSource_map_dom:
  "dom (fst (filterSource W source i m fs)) = dom m \<union> {Name e |e. e \<in> set source \<and> Name e \<in> set W}"
  by (induction source arbitrary: i m fs) (auto simp: isAcceptable_iff)

lemma overwrite_Name [simp]: "Name (overwrite m sp env) = Name env"
  by (simp add: overwrite_def split: option.splits)

lemma overwrite_False [simp]: "overwrite m False env = env"
  by (simp add: overwrite_def split: option.splits)

lemma overwrite_unmatched: "m (Name env) = None \<Longrightarrow> overwrite m sp env = env"
  by (simp add: overwrite_def)

lemma overwrite_Value_only: "overwrite m sp env = env\<lparr>Value := Value (overwrite m sp env)\<rparr>"
  by (simp add: overwrite_def split: option.splits)

lemma remove_at_subseq: "subseq (take k fs @ drop (k + 1) fs) fs"
proof -
  have "subseq (drop (k + 1) fs) (drop k fs)"
    by (metis Suc_eq_plus1 drop_Suc drop_tl sublist_tl sublist_imp_subseq)
  then have "subseq (take k fs @ drop (k + 1) fs) (take k fs @ drop k fs)"
    by (intro list_emb_append_mono subseq_order.order_refl)
  then show ?thesis by simp
qed

lemma walk_Inr:
  "walk m sp visited out fs = Inr (res, fs') \<Longrightarrow>
   res = visited @ map (overwrite m sp) out \<and> subseq fs' fs"
proof (induction out arbitrary: visited fs)
  case Nil
  then show ?case by simp
next
  case (Cons env rest)
  show ?case
  proof (cases "m (Name env)")
    case None
    with Cons.prems have "walk m sp (visited @ [env]) rest fs = Inr (res, fs')" by simp
    from Cons.IH [OF this] None show ?thesis by (simp add: overwrite_def)
  next
    case (Some v)
    let ?fs = "take (item_index v) fs @ drop (item_index v + 1) fs"
    from Cons.prems Some have ok: "\<not> length fs < item_index v + 1"
      by (auto simp: Let_def split: if_splits)
    with Cons.prems Some have
      "walk m sp (visited @ [overwrite m sp env]) rest ?fs = Inr (res, fs')"
      by (simp add: Let_def overwrite_def)
    from Cons.IH [OF this] have res: "res = (visited @ [overwrite m sp env]) @ map (overwrite m sp) rest"
      and sub: "subseq fs' ?fs" by simp_all
    from sub remove_at_subseq [of "item_index v" fs] have "subseq fs' fs"
      by (rule subseq_order.order_trans)
    with res show ?thesis by simp
  qed
qed

lemma walk_Inl:
  "walk m sp visited out fs = Inl (p, mem) \<Longrightarrow>
   p = SliceBoundsOutOfRange \<and>
   (\<exists>k \<le> length out. mem = visited @ map (overwrite m sp) (take k out) @ drop k out)"
proof (induction out arbitrary: visited fs)
  case Nil
  then show ?case by simp
next
  case (Cons env rest)
  show ?case
  proof (cases "m (Name env)")
    case None
    with Cons.prems have "walk m sp (visited @ [env]) rest fs = Inl (p, mem)" by simp
    from Cons.IH [OF this] obtain k where p: "p = SliceBoundsOutOfRange" and k: "k \<le> length rest"
      and mem: "mem = (visited @ [env]) @ map (overwrite m sp) (take k rest) @ drop k rest"
      by blast
    from mem None have "mem = visited @ map (overwrite m sp) (take (Suc k) (env # rest)) @ drop (Suc k) (env # rest)"
      by (simp add: overwrite_def)
    with p k show ?thesis by (intro conjI exI [of _ "Suc k"]) simp_all
  next
    case (Some v)
    let ?fs = "take (item_index v) fs @ drop (item_index v + 1) fs"
    show ?thesis
    proof (cases "length fs < item_index v + 1")
      case True
      with Cons.prems Some have p: "p = SliceBoundsOutOfRange"
        and "mem = visited @ overwrite m sp env # rest"
        by (simp_all add: Let_def overwrite_def)
      then have "mem = visited @ map (overwrite m sp) (take 1 (env # rest)) @ drop 1 (env # rest)"
        by simp
      with p show ?thesis by (intro conjI exI [of _ 1]) simp_all
    next
      case False
      with Cons.prems Some have
        "walk m sp (visited @ [overwrite m sp env]) rest ?fs = Inl (p, mem)"
        by (simp add: Let_def overwrite_def)
      from Cons.IH [OF this] obtain k where p: "p = SliceBoundsOutOfRange" and k: "k \<le> length rest"
        and mem: "mem = (visited @ [overwrite m sp env]) @ map (overwrite m sp) (take k rest) @ drop k rest"
        by blast
      from mem have "mem = visited @ map (overwrite m sp) (take (Suc k) (env # rest)) @ drop (Suc k) (env # rest)"
        by simp
      with p k show ?thesis by (intro conjI exI [of _ "Suc k"]) simp_all
    qed
  qed
qed

text \<open>The flag changes neither whether the walk panics nor what remains of the filtered source.\<close>

lemma walk_flag_Inr:
  "walk m sp visited out fs = Inr (res, fs') \<Longrightarrow>
   \<exists>res'. walk m sp' visited' out fs = Inr (res', fs')"
proof (induction out arbitrary: visited visited' fs)
  case Nil
  then show ?case by simp
next
  case (Cons env rest)
  show ?case
  proof (cases "m (Name env)")
    case None
    with Cons.prems have "walk m sp (visited @ [env]) rest fs = Inr (res, fs')" by simp
    from Cons.IH [OF this, of "visited' @ [env]"] None show ?thesis by simp
  next
    case (Some v)
    let ?fs = "take (item_index v) fs @ drop (item_index v + 1) fs"
    from Cons.prems Some have ok: "\<not> length fs < item_index v + 1"
      by (auto simp: Let_def split: if_splits)
    with Cons.prems Some have
      "walk m sp (visited @ [overwrite m sp env]) rest ?fs = Inr (res, fs')"
      by (simp add: Let_def overwrite_def)
    from Cons.IH [OF this, of "visited' @ [overwrite m sp' env]"] Some ok
    show ?thesis by (simp add: Let_def overwrite_def)
  qed
qed

lemma walk_flag_Inl:
  "walk m sp visited out fs = Inl (p, mem) \<Longrightarrow>
   \<exists>mem'. walk m sp' visited' out fs = Inl (p, mem')"
proof (induction out arbitrary: visited visited' fs)
  case Nil
  then show ?case by simp
next
  case (Cons env rest)
  show ?case
  proof (cases "m (Name env)")
    case None
    with Cons.prems have "walk m sp (visited @ [env]) rest fs = Inl (p, mem)" by simp
    from Cons.IH [OF this, of "visited' @ [env]"] None show ?thesis by simp
  next
    case (Some v)
    let ?fs = "take (item_index v) fs @ drop (item_index v + 1) fs"
    show ?thesis
    proof (cases "length fs < item_index v + 1")
      case True
      with Cons.prems Some show ?thesis by (simp add: Let_def)
    next
      case False
      with Cons.prems Some have
        "walk m sp (visited @ [overwrite m sp env]) rest ?fs = Inl (p, mem)"
        by (simp add: Let_def overwrite_def)
      from Cons.IH [OF this, of "visited' @ [overwrite m sp' env]"] Some False
      show ?thesis by (simp add: Let_def overwrite_def)
    qed
  qed
qed

subsection \<open>The merge as a whole\<close>

lemma Merge_Inr:
  assumes "MergeTrustedEnvWithoutDuplicates W source output sp = Inr final"
  shows "\<exists>rest. final = map (overwrite (fst (filterSource W source 0 Map.empty [])) sp) output @ rest \<and>
           subseq rest (filter (\<lambda>e. Name e \<in> set W) source)"
proof -
  obtain m fs where f: "filterSource W source 0 Map.empty [] = (m, fs)"
    by (cases "filterSource W source 0 Map.empty []")
  with assms obtain res fs' where w: "walk m sp [] output fs = Inr (res, fs')"
    and final: "final = res @ fs'"
    by (auto simp: MergeTrustedEnvWithoutDuplicates_def split: sum.splits)
  from f filterSource_list [of W source 0 Map.empty "[]"]
  have fs: "fs = filter (\<lambda>e. Name e \<in> set W) source" by simp
  from walk_Inr [OF w] final fs f show ?thesis by simp
qed

lemma Merge_Inl:
  assumes "MergeTrustedEnvWithoutDuplicates W source output sp = Inl (p, mem)"
  shows "p = SliceBoundsOutOfRange \<and>
         (\<exists>k \<le> length output.
            mem = map (overwrite (fst (filterSource W source 0 Map.empty [])) sp) (take k output) @
                  drop k output)"
proof -
  obtain m fs where f: "filterSource W source 0 Map.empty [] = (m, fs)"
    by (cases "filterSource W source 0 Map.empty []")
  with assms have w: "walk m sp [] output fs = Inl (p, mem)"
    by (auto simp: MergeTrustedEnvWithoutDuplicates_def split: sum.splits)
  from walk_Inl [OF w] f show ?thesis by simp
qed

lemma overwrite_from_source:
  fixes x :: "'a EnvVar_scheme"
  assumes "m = fst (filterSource W source 0 Map.empty [])"
  shows "overwrite m sp x = x \<or>
         (\<exists>e \<in> set source. Name e \<in> set W \<and> Name e = Name x \<and> overwrite m sp x = x\<lparr>Value := Value e\<rparr>)"
proof (cases "m (Name x)")
  case None
  then show ?thesis by (simp add: overwrite_def)
next
  case (Some v)
  with assms filterSource_map_Some [of W source 0 Map.empty "[]" "Name x" v]
  obtain e where "e \<in> set source" "Name e = Name x" "Name x \<in> set W" "item_value v = Value e"
    by auto
  with Some show ?thesis by (auto simp: overwrite_def)
qed

lemma overwrite_not_in_source:
  fixes x :: "'a EnvVar_scheme"
  assumes "m = fst (filterSource W source 0 Map.empty [])"
    and "Name x \<notin> Name ` {e \<in> set source. Name e \<in> set W}"
  shows "overwrite m sp x = x"
proof -
  from assms filterSource_map_dom [of W source 0 Map.empty "[]"]
  have "Name x \<notin> dom m" by auto
  then show ?thesis by (simp add: overwrite_unmatched domIff)
qed

lemma nth_partly_mapped:
  "i < length xs \<Longrightarrow> (map f (take k xs) @ drop k xs) ! i = (if i < k then f (xs ! i) else xs ! i)"
  by (simp add: nth_append min_def)

subsection \<open>What the merge lets through\<close>

text \<open>
  Claim C1. Whatever the whitelist \<open>W\<close>, the source, the original \<open>*output\<close> and the
  flag: when the merge returns, the final \<open>*output\<close> starts with entries of the names of
  the original ones, in their order; every entry after them is an entry of \<open>source\<close> with
  a whitelisted name; so every name of the final \<open>*output\<close> that is not a name of the
  original one is whitelisted; and an original entry is left as it was or has received
  the value of an entry of \<open>source\<close> with the same, whitelisted, name. When the merge
  panics, the array of \<open>*output\<close> holds the original names, and each entry is as it was
  or has received such a value. No entry of \<open>source\<close> with a name outside the whitelist
  reaches \<open>*output\<close>.
\<close>

theorem Merge_adds_whitelisted_only:
  "(\<forall>final. MergeTrustedEnvWithoutDuplicates W source output sp = Inr final \<longrightarrow>
      map Name (take (length output) final) = map Name output \<and>
      (\<forall>e \<in> set (drop (length output) final). e \<in> set source \<and> Name e \<in> set W) \<and>
      (\<forall>n \<in> set (map Name final). n \<notin> set (map Name output) \<longrightarrow> n \<in> set W) \<and>
      (\<forall>i < length output. final ! i = output ! i \<or>
         (\<exists>e \<in> set source. Name e \<in> set W \<and> Name e = Name (output ! i) \<and>
            final ! i = (output ! i)\<lparr>Value := Value e\<rparr>))) \<and>
   (\<forall>p mem. MergeTrustedEnvWithoutDuplicates W source output sp = Inl (p, mem) \<longrightarrow>
      map Name mem = map Name output \<and>
      (\<forall>i < length output. mem ! i = output ! i \<or>
         (\<exists>e \<in> set source. Name e \<in> set W \<and> Name e = Name (output ! i) \<and>
            mem ! i = (output ! i)\<lparr>Value := Value e\<rparr>)))"
proof -
  let ?from_source = "\<lambda>(x' :: 'a EnvVar_scheme) x. x' = x \<or>
         (\<exists>e \<in> set source. Name e \<in> set W \<and> Name e = Name x \<and> x' = x\<lparr>Value := Value e\<rparr>)"
  have A: "map Name (take (length output) final) = map Name output \<and>
      (\<forall>e \<in> set (drop (length output) final). e \<in> set source \<and> Name e \<in> set W) \<and>
      (\<forall>n \<in> set (map Name final). n \<notin> set (map Name output) \<longrightarrow> n \<in> set W) \<and>
      (\<forall>i < length output. ?from_source (final ! i) (output ! i))"
    if "MergeTrustedEnvWithoutDuplicates W source output sp = Inr final" for final
  proof -
    from Merge_Inr [OF that] obtain rest m where m: "m = fst (filterSource W source 0 Map.empty [])"
      and final: "final = map (overwrite m sp) output @ rest"
      and rest: "subseq rest (filter (\<lambda>e. Name e \<in> set W) source)"
      by blast
    have sub: "set rest \<subseteq> {e \<in> set source. Name e \<in> set W}"
    proof
      fix x assume "x \<in> set rest"
      with rest obtain y where "y \<in> set (filter (\<lambda>e. Name e \<in> set W) source)" and "x = y"
        by (rule list_emb_set)
      then show "x \<in> {e \<in> set source. Name e \<in> set W}" by simp
    qed
    from final have 1: "map Name (take (length output) final) = map Name output"
      by (simp add: comp_def)
    from final sub have 2: "\<forall>e \<in> set (drop (length output) final). e \<in> set source \<and> Name e \<in> set W"
      by auto
    from final sub have 3: "\<forall>n \<in> set (map Name final). n \<notin> set (map Name output) \<longrightarrow> n \<in> set W"
      by auto
    have 4: "?from_source (final ! i) (output ! i)" if "i < length output" for i
    proof -
      from that final have "final ! i = overwrite m sp (output ! i)" by (simp add: nth_append)
      with overwrite_from_source [OF m, of sp "output ! i"] show ?thesis by simp
    qed
    from 1 2 3 4 show ?thesis by blast
  qed
  have B: "map Name mem = map Name output \<and>
      (\<forall>i < length output. ?from_source (mem ! i) (output ! i))"
    if "MergeTrustedEnvWithoutDuplicates W source output sp = Inl (p, mem)" for p mem
  proof -
    from Merge_Inl [OF that] obtain k m where m: "m = fst (filterSource W source 0 Map.empty [])"
      and k: "k \<le> length output"
      and mem: "mem = map (overwrite m sp) (take k output) @ drop k output"
      by blast
    have "map Name mem = map Name (take k output) @ map Name (drop k output)"
      by (simp add: mem comp_def)
    then have 1: "map Name mem = map Name output"
      by (simp flip: map_append)
    have 2: "?from_source (mem ! i) (output ! i)" if i: "i < length output" for i
    proof -
      from nth_partly_mapped [OF i, of "overwrite m sp" k] mem
      have "mem ! i = output ! i \<or> mem ! i = overwrite m sp (output ! i)" by (simp split: if_splits)
      with overwrite_from_source [OF m, of sp "output ! i"] show ?thesis by auto
    qed
    from 1 2 show ?thesis by blast
  qed
  from A B show ?thesis by blast
qed

theorem Merge_adds_whitelisted_only_witness:
  "MergeTrustedEnvWithoutDuplicates [''FOO'', ''BAR'']
     [\<lparr>Name = ''FOO'', Value = ''1''\<rparr>, \<lparr>Name = ''BAZ'', Value = ''x''\<rparr>, \<lparr>Name = ''BAR'', Value = ''2''\<rparr>]
     [\<lparr>Name = ''FOO'', Value = ''0''\<rparr>] True =
   Inr [\<lparr>Name = ''FOO'', Value = ''1''\<rparr>, \<lparr>Name = ''BAR'', Value = ''2''\<rparr>] \<and>
   set (map Name [\<lparr>Name = ''FOO'', Value = ''1''\<rparr>, \<lparr>Name = ''BAR'', Value = ''2''\<rparr>]) -
     set (map Name [\<lparr>Name = ''FOO'', Value = ''0''\<rparr>]) \<subseteq> set [''FOO'', ''BAR''] \<and>
   ''BAZ'' \<notin> set (map Name [\<lparr>Name = ''FOO'', Value = ''1''\<rparr>, \<lparr>Name = ''BAR'', Value = ''2''\<rparr>])"
  using Merge_adds_whitelisted_only [of "[''FOO'', ''BAR'']"
     "[\<lparr>Name = ''FOO'', Value = ''1''\<rparr>, \<lparr>Name = ''BAZ'', Value = ''x''\<rparr>, \<lparr>Name = ''BAR'', Value = ''2''\<rparr>]"
     "[\<lparr>Name = ''FOO'', Value = ''0''\<rparr>]" True]
  by (simp add: MergeTrustedEnvWithoutDuplicates_def)

lemma Merge_adds_names:
  assumes "MergeTrustedEnvWithoutDuplicates W source output sp = Inl (p, mem)"
  shows "map Name mem = map Name output"
proof -
  from Merge_Inl [OF assms] obtain k m where
    mem: "mem = map (overwrite m sp) (take k output) @ drop k output"
    by blast
  have "map Name mem = map Name (take k output) @ map Name (drop k output)"
    by (simp add: mem comp_def)
  then show ?thesis by (simp flip: map_append)
qed

subsection \<open>What the merge leaves in place\<close>

text \<open>
  Claim C4. When the merge returns, the final \<open>*output\<close> is at least as long as the
  original one, and at every position of the original \<open>*output\<close> the entry has the name
  it had and differs from the original entry in its value at most; it is the original
  entry when its name is not the name of a whitelisted entry of \<open>source\<close>, and when
  \<open>sourcePrecedence\<close> is false. The same holds of the array of \<open>*output\<close> when the merge
  panics.
\<close>

theorem Merge_frame:
  "(\<forall>final. MergeTrustedEnvWithoutDuplicates W source output sp = Inr final \<longrightarrow>
      length output \<le> length final \<and>
      (\<forall>i < length output.
         Name (final ! i) = Name (output ! i) \<and>
         final ! i = (output ! i)\<lparr>Value := Value (final ! i)\<rparr> \<and>
         (Name (output ! i) \<notin> Name ` {e \<in> set source. Name e \<in> set W} \<longrightarrow>
            final ! i = output ! i) \<and>
         (\<not> sp \<longrightarrow> final ! i = output ! i))) \<and>
   (\<forall>p mem. MergeTrustedEnvWithoutDuplicates W source output sp = Inl (p, mem) \<longrightarrow>
      length mem = length output \<and>
      (\<forall>i < length output.
         Name (mem ! i) = Name (output ! i) \<and>
         mem ! i = (output ! i)\<lparr>Value := Value (mem ! i)\<rparr> \<and>
         (Name (output ! i) \<notin> Name ` {e \<in> set source. Name e \<in> set W} \<longrightarrow>
            mem ! i = output ! i) \<and>
         (\<not> sp \<longrightarrow> mem ! i = output ! i)))"
proof -
  let ?m = "fst (filterSource W source 0 Map.empty [])"
  let ?kept = "\<lambda>(x' :: 'a EnvVar_scheme) x.
         Name x' = Name x \<and> x' = x\<lparr>Value := Value x'\<rparr> \<and>
         (Name x \<notin> Name ` {e \<in> set source. Name e \<in> set W} \<longrightarrow> x' = x) \<and>
         (\<not> sp \<longrightarrow> x' = x)"
  have ow: "?kept (overwrite ?m sp x) x" for x :: "'a EnvVar_scheme"
  proof (intro conjI impI)
    show "Name (overwrite ?m sp x) = Name x" by simp
    show "overwrite ?m sp x = x\<lparr>Value := Value (overwrite ?m sp x)\<rparr>"
      by (rule overwrite_Value_only)
    show "overwrite ?m sp x = x" if "Name x \<notin> Name ` {e \<in> set source. Name e \<in> set W}"
      using that by (rule overwrite_not_in_source [OF refl])
    show "overwrite ?m sp x = x" if "\<not> sp"
      using that by simp
  qed
  have same: "?kept x x" for x :: "'a EnvVar_scheme" by simp
  have A: "length output \<le> length final \<and> (\<forall>i < length output. ?kept (final ! i) (output ! i))"
    if "MergeTrustedEnvWithoutDuplicates W source output sp = Inr final" for final
  proof -
    from Merge_Inr [OF that] obtain rest where
      final: "final = map (overwrite ?m sp) output @ rest"
      by blast
    have "?kept (final ! i) (output ! i)" if "i < length output" for i
    proof -
      from that final have "final ! i = overwrite ?m sp (output ! i)" by (simp add: nth_append)
      with ow [of "output ! i"] show ?thesis by simp
    qed
    with final show ?thesis by simp
  qed
  have B: "length mem = length output \<and> (\<forall>i < length output. ?kept (mem ! i) (output ! i))"
    if "MergeTrustedEnvWithoutDuplicates W source output sp = Inl (p, mem)" for p mem
  proof -
    from Merge_Inl [OF that] obtain k where k: "k \<le> length output"
      and mem: "mem = map (overwrite ?m sp) (take k output) @ drop k output"
      by blast
    have "?kept (mem ! i) (output ! i)" if i: "i < length output" for i
    proof (cases "i < k")
      case True
      with nth_partly_mapped [OF i, of "overwrite ?m sp" k] mem
      have "mem ! i = overwrite ?m sp (output ! i)" by simp
      with ow [of "output ! i"] show ?thesis by simp
    next
      case False
      with nth_partly_mapped [OF i, of "overwrite ?m sp" k] mem
      have "mem ! i = output ! i" by simp
      with same [of "output ! i"] show ?thesis by simp
    qed
    with mem k show ?thesis by simp
  qed
  from A B show ?thesis by blast
qed

theorem Merge_frame_witness:
  "MergeTrustedEnvWithoutDuplicates [''FOO'', ''BAR'']
     [\<lparr>Name = ''FOO'', Value = ''1''\<rparr>, \<lparr>Name = ''BAZ'', Value = ''x''\<rparr>, \<lparr>Name = ''BAR'', Value = ''2''\<rparr>]
     [\<lparr>Name = ''PATH'', Value = ''/bin''\<rparr>, \<lparr>Name = ''FOO'', Value = ''0''\<rparr>] True =
   Inr [\<lparr>Name = ''PATH'', Value = ''/bin''\<rparr>, \<lparr>Name = ''FOO'', Value = ''1''\<rparr>, \<lparr>Name = ''BAR'', Value = ''2''\<rparr>] \<and>
   [\<lparr>Name = ''PATH'', Value = ''/bin''\<rparr>, \<lparr>Name = ''FOO'', Value = ''1''\<rparr>, \<lparr>Name = ''BAR'', Value = ''2''\<rparr>] ! 0 = [\<lparr>Name = ''PATH'', Value = ''/bin''\<rparr>, \<lparr>Name = ''FOO'', Value = ''0''\<rparr>] ! 0 \<and>
   Name ([\<lparr>Name = ''PATH'', Value = ''/bin''\<rparr>, \<lparr>Name = ''FOO'', Value = ''1''\<rparr>, \<lparr>Name = ''BAR'', Value = ''2''\<rparr>] ! 1) = Name ([\<lparr>Name = ''PATH'', Value = ''/bin''\<rparr>, \<lparr>Name = ''FOO'', Value = ''0''\<rparr>] ! 1)"
  using Merge_frame [of "[''FOO'', ''BAR'']"
     "[\<lparr>Name = ''FOO'', Value = ''1''\<rparr>, \<lparr>Name = ''BAZ'', Value = ''x''\<rparr>, \<lparr>Name = ''BAR'', Value = ''2''\<rparr>]"
     "[\<lparr>Name = ''PATH'', Value = ''/bin''\<rparr>, \<lparr>Name = ''FOO'', Value = ''0''\<rparr>]" True]
  by (simp add: MergeTrustedEnvWithoutDuplicates_def)

subsection \<open>The flag and the names\<close>

text \<open>
  Claim C10. For the same whitelist, source and original \<open>*output\<close>, and two values of
  \<open>sourcePrecedence\<close>: when the merge returns under the one, it returns under the other,
  with the same sequence of names and the same appended entries, and under the value
  false the original entries are unchanged; when it panics under the one, it panics
  under the other, with the same names in the array of \<open>*output\<close>. So the flag decides
  the values of matched original entries only.
\<close>

theorem Merge_names_flag_independent:
  "(\<forall>final. MergeTrustedEnvWithoutDuplicates W source output sp = Inr final \<longrightarrow>
      (\<exists>final'. MergeTrustedEnvWithoutDuplicates W source output sp' = Inr final' \<and>
         map Name final' = map Name final \<and>
         drop (length output) final' = drop (length output) final \<and>
         (\<not> sp' \<longrightarrow> take (length output) final' = output))) \<and>
   (\<forall>p mem. MergeTrustedEnvWithoutDuplicates W source output sp = Inl (p, mem) \<longrightarrow>
      (\<exists>mem'. MergeTrustedEnvWithoutDuplicates W source output sp' = Inl (p, mem') \<and>
         map Name mem' = map Name mem))"
proof -
  obtain m fs where f: "filterSource W source 0 Map.empty [] = (m, fs)"
    by (cases "filterSource W source 0 Map.empty []")
  have A: "\<exists>final'. MergeTrustedEnvWithoutDuplicates W source output sp' = Inr final' \<and>
         map Name final' = map Name final \<and>
         drop (length output) final' = drop (length output) final \<and>
         (\<not> sp' \<longrightarrow> take (length output) final' = output)"
    if "MergeTrustedEnvWithoutDuplicates W source output sp = Inr final" for final
  proof -
    from that f obtain res fs' where w: "walk m sp [] output fs = Inr (res, fs')"
      and final: "final = res @ fs'"
      by (auto simp: MergeTrustedEnvWithoutDuplicates_def split: sum.splits)
    from walk_flag_Inr [OF w, of sp' "[]"] obtain res' where
      w': "walk m sp' [] output fs = Inr (res', fs')" by blast
    from walk_Inr [OF w] have res: "res = map (overwrite m sp) output" by simp
    from walk_Inr [OF w'] have res': "res' = map (overwrite m sp') output" by simp
    from w' f have "MergeTrustedEnvWithoutDuplicates W source output sp' = Inr (res' @ fs')"
      by (simp add: MergeTrustedEnvWithoutDuplicates_def)
    moreover from final res res' have "map Name (res' @ fs') = map Name final"
      by (simp add: comp_def)
    moreover from final res res' have "drop (length output) (res' @ fs') = drop (length output) final"
      by simp
    moreover from res' have "take (length output) (res' @ fs') = output" if "\<not> sp'"
      using that by (simp add: map_idI)
    ultimately show ?thesis by blast
  qed
  have B: "\<exists>mem'. MergeTrustedEnvWithoutDuplicates W source output sp' = Inl (p, mem') \<and>
         map Name mem' = map Name mem"
    if "MergeTrustedEnvWithoutDuplicates W source output sp = Inl (p, mem)" for p mem
  proof -
    from that f have w: "walk m sp [] output fs = Inl (p, mem)"
      by (auto simp: MergeTrustedEnvWithoutDuplicates_def split: sum.splits)
    from walk_flag_Inl [OF w, of sp' "[]"] obtain mem' where
      w': "walk m sp' [] output fs = Inl (p, mem')" by blast
    from w' f have m': "MergeTrustedEnvWithoutDuplicates W source output sp' = Inl (p, mem')"
      by (simp add: MergeTrustedEnvWithoutDuplicates_def)
    from Merge_adds_names [OF that] Merge_adds_names [OF m']
    have "map Name mem' = map Name mem" by simp
    with m' show ?thesis by blast
  qed
  from A B show ?thesis by blast
qed

theorem Merge_names_flag_independent_witness:
  "MergeTrustedEnvWithoutDuplicates [''FOO'', ''BAR'']
     [\<lparr>Name = ''FOO'', Value = ''1''\<rparr>, \<lparr>Name = ''BAZ'', Value = ''x''\<rparr>, \<lparr>Name = ''BAR'', Value = ''2''\<rparr>]
     [\<lparr>Name = ''PATH'', Value = ''/bin''\<rparr>, \<lparr>Name = ''FOO'', Value = ''0''\<rparr>] True =
   Inr [\<lparr>Name = ''PATH'', Value = ''/bin''\<rparr>, \<lparr>Name = ''FOO'', Value = ''1''\<rparr>, \<lparr>Name = ''BAR'', Value = ''2''\<rparr>] \<and>
   MergeTrustedEnvWithoutDuplicates [''FOO'', ''BAR'']
     [\<lparr>Name = ''FOO'', Value = ''1''\<rparr>, \<lparr>Name = ''BAZ'', Value = ''x''\<rparr>, \<lparr>Name = ''BAR'', Value = ''2''\<rparr>]
     [\<lparr>Name = ''PATH'', Value = ''/bin''\<rparr>, \<lparr>Name = ''FOO'', Value = ''0''\<rparr>] False =
   Inr [\<lparr>Name = ''PATH'', Value = ''/bin''\<rparr>, \<lparr>Name = ''FOO'', Value = ''0''\<rparr>, \<lparr>Name = ''BAR'', Value = ''2''\<rparr>] \<and>
   map Name [\<lparr>Name = ''PATH'', Value = ''/bin''\<rparr>, \<lparr>Name = ''FOO'', Value = ''0''\<rparr>, \<lparr>Name = ''BAR'', Value = ''2''\<rparr>] =
   map Name [\<lparr>Name = ''PATH'', Value = ''/bin''\<rparr>, \<lparr>Name = ''FOO'', Value = ''1''\<rparr>, \<lparr>Name = ''BAR'', Value = ''2''\<rparr>]"
  using Merge_names_flag_independent [of "[''FOO'', ''BAR'']"
     "[\<lparr>Name = ''FOO'', Value = ''1''\<rparr>, \<lparr>Name = ''BAZ'', Value = ''x''\<rparr>, \<lparr>Name = ''BAR'', Value = ''2''\<rparr>]"
     "[\<lparr>Name = ''PATH'', Value = ''/bin''\<rparr>, \<lparr>Name = ''FOO'', Value = ''0''\<rparr>]" True False]
  by (simp add: MergeTrustedEnvWithoutDuplicates_def)

subsection \<open>Removal by recorded position\<close>

text \<open>
  Claim C2, which the code does not meet. The walk removes the entry at the position
  recorded when the filtered list was built and never adjusts a position after a
  removal. With the three whitelisted names \<open>FOO\<close>, \<open>BAR\<close> and \<open>QUX\<close> in \<open>source\<close> and the
  first two in \<open>*output\<close>, the removal for \<open>BAR\<close> takes out the entry of \<open>QUX\<close>: the
  matched entry of \<open>BAR\<close> is appended and the entry of \<open>QUX\<close> is lost. With the first two
  names only in both lists the removal for \<open>BAR\<close> is out of range and the merge panics.
\<close>

theorem Merge_removal_ignores_shift:
  "MergeTrustedEnvWithoutDuplicates [''FOO'', ''BAR'', ''QUX'']
     [\<lparr>Name = ''FOO'', Value = ''1''\<rparr>, \<lparr>Name = ''BAR'', Value = ''2''\<rparr>, \<lparr>Name = ''QUX'', Value = ''3''\<rparr>]
     [\<lparr>Name = ''FOO'', Value = ''0''\<rparr>, \<lparr>Name = ''BAR'', Value = ''0''\<rparr>] True =
   Inr [\<lparr>Name = ''FOO'', Value = ''1''\<rparr>, \<lparr>Name = ''BAR'', Value = ''2''\<rparr>, \<lparr>Name = ''BAR'', Value = ''2''\<rparr>] \<and>
   MergeTrustedEnvWithoutDuplicates [''FOO'', ''BAR'']
     [\<lparr>Name = ''FOO'', Value = ''1''\<rparr>, \<lparr>Name = ''BAR'', Value = ''2''\<rparr>]
     [\<lparr>Name = ''FOO'', Value = ''0''\<rparr>, \<lparr>Name = ''BAR'', Value = ''0''\<rparr>] True =
   Inl (SliceBoundsOutOfRange, [\<lparr>Name = ''FOO'', Value = ''1''\<rparr>, \<lparr>Name = ''BAR'', Value = ''2''\<rparr>])"
  by (simp add: MergeTrustedEnvWithoutDuplicates_def)

subsection \<open>Merging twice\<close>

text \<open>
  Claim C3, which the code does not meet. Merging two whitelisted entries into an empty
  \<open>*output\<close> under source precedence returns the two entries; merging the same source
  into that result panics at the second entry, whose recorded position 1 is out of
  range once the first entry has been removed from the filtered list.
\<close>

theorem Merge_twice_panics:
  "MergeTrustedEnvWithoutDuplicates [''FOO'', ''BAR'']
     [\<lparr>Name = ''FOO'', Value = ''1''\<rparr>, \<lparr>Name = ''BAR'', Value = ''2''\<rparr>] [] True =
   Inr [\<lparr>Name = ''FOO'', Value = ''1''\<rparr>, \<lparr>Name = ''BAR'', Value = ''2''\<rparr>] \<and>
   MergeTrustedEnvWithoutDuplicates [''FOO'', ''BAR'']
     [\<lparr>Name = ''FOO'', Value = ''1''\<rparr>, \<lparr>Name = ''BAR'', Value = ''2''\<rparr>]
     [\<lparr>Name = ''FOO'', Value = ''1''\<rparr>, \<lparr>Name = ''BAR'', Value = ''2''\<rparr>] True =
   Inl (SliceBoundsOutOfRange, [\<lparr>Name = ''FOO'', Value = ''1''\<rparr>, \<lparr>Name = ''BAR'', Value = ''2''\<rparr>])"
  by (simp add: MergeTrustedEnvWithoutDuplicates_def)

subsection \<open>The input reference of a strategy\<close>

text \<open>
  Claim C5 says that \<open>GetInputReference\<close> returns nil if and only if no variant is set.
  The code returns the pointer \<open>From\<close> of a Docker strategy as it is: for a strategy whose
  only variant is a Docker strategy with a nil \<open>From\<close> the result is nil although a variant
  is set.
\<close>

theorem GetInputReference_nil_with_DockerStrategy:
  "GetInputReference
     \<lparr>DockerStrategy = Some \<lparr>DockerFrom = None\<rparr>, SourceStrategy = None, CustomStrategy = None\<rparr> =
   (None :: string option) \<and>
   DockerStrategy
     \<lparr>DockerStrategy = Some \<lparr>DockerFrom = (None :: string option)\<rparr>, SourceStrategy = None,
      CustomStrategy = None\<rparr> \<noteq> None"
  by (simp add: GetInputReference_def)

text \<open>
  Claim C5, amended. \<open>GetInputReference\<close> looks at the source strategy first, then at the
  Docker strategy, then at the custom strategy. For the first one that is set it
  returns the address of \<open>From\<close> of a source or a custom strategy, and the pointer \<open>From\<close>
  of a Docker strategy. The result is nil if and only if no variant is set, or the
  source strategy is not set and the Docker strategy is set with a nil \<open>From\<close>.
\<close>

theorem GetInputReference_order:
  "(\<forall>s. SourceStrategy strategy = Some s \<longrightarrow> GetInputReference strategy = Some (SourceFrom s)) \<and>
   (\<forall>d. SourceStrategy strategy = None \<and> DockerStrategy strategy = Some d \<longrightarrow>
      GetInputReference strategy = DockerFrom d) \<and>
   (\<forall>c. SourceStrategy strategy = None \<and> DockerStrategy strategy = None \<and>
      CustomStrategy strategy = Some c \<longrightarrow> GetInputReference strategy = Some (CustomFrom c)) \<and>
   (GetInputReference strategy = None \<longleftrightarrow>
      SourceStrategy strategy = None \<and>
      (DockerStrategy strategy = None \<and> CustomStrategy strategy = None \<or>
       (\<exists>d. DockerStrategy strategy = Some d \<and> DockerFrom d = None)))"
  by (auto simp: GetInputReference_def split: option.splits)

theorem GetInputReference_order_witness:
  "GetInputReference
     \<lparr>DockerStrategy = Some \<lparr>DockerFrom = Some ''centos:7''\<rparr>,
      SourceStrategy = Some \<lparr>SourceFrom = ''ruby:2.3''\<rparr>,
      CustomStrategy = Some \<lparr>CustomFrom = ''builder:1''\<rparr>\<rparr> = Some ''ruby:2.3'' \<and>
   GetInputReference
     \<lparr>DockerStrategy = Some \<lparr>DockerFrom = Some ''centos:7''\<rparr>,
      SourceStrategy = None,
      CustomStrategy = Some \<lparr>CustomFrom = ''builder:1''\<rparr>\<rparr> = Some ''centos:7'' \<and>
   GetInputReference
     \<lparr>DockerStrategy = None, SourceStrategy = None,
      CustomStrategy = Some \<lparr>CustomFrom = ''builder:1''\<rparr>\<rparr> = Some ''builder:1''"
  using
    GetInputReference_order [of "\<lparr>DockerStrategy = Some \<lparr>DockerFrom = Some ''centos:7''\<rparr>,
      SourceStrategy = Some \<lparr>SourceFrom = ''ruby:2.3''\<rparr>,
      CustomStrategy = Some \<lparr>CustomFrom = ''builder:1''\<rparr>\<rparr>"]
    GetInputReference_order [of "\<lparr>DockerStrategy = Some \<lparr>DockerFrom = Some ''centos:7''\<rparr>,
      SourceStrategy = None,
      CustomStrategy = Some \<lparr>CustomFrom = ''builder:1''\<rparr>\<rparr>"]
    GetInputReference_order [of "\<lparr>DockerStrategy = None, SourceStrategy = None,
      CustomStrategy = Some \<lparr>CustomFrom = ''builder:1''\<rparr>\<rparr>"]
  by simp

subsection \<open>The name of the owning config\<close>

text \<open>
  Claim C6. \<open>ConfigNameForBuild\<close> returns the empty string for a nil build. For a build
  it returns the value of the owning-config annotation when that key exists, whatever
  the value, the empty one too; else the value of the current label when that key
  exists; else the value of the deprecated label, and the empty string when that key
  is missing as well. One of the three is taken, in this order.
\<close>

theorem ConfigNameForBuild_priority:
  "ConfigNameForBuild K None = [] \<and>
   (\<forall>b v. mapLookup (Annotations b) (BuildConfigAnnotation K) = Some v \<longrightarrow>
      ConfigNameForBuild K (Some b) = v) \<and>
   (\<forall>b v. mapLookup (Annotations b) (BuildConfigAnnotation K) = None \<and>
      mapLookup (Labels b) (BuildConfigLabel K) = Some v \<longrightarrow>
      ConfigNameForBuild K (Some b) = v) \<and>
   (\<forall>b v. mapLookup (Annotations b) (BuildConfigAnnotation K) = None \<and>
      mapLookup (Labels b) (BuildConfigLabel K) = None \<and>
      mapLookup (Labels b) (BuildConfigLabelDeprecated K) = Some v \<longrightarrow>
      ConfigNameForBuild K (Some b) = v) \<and>
   (\<forall>b. mapLookup (Annotations b) (BuildConfigAnnotation K) = None \<and>
      mapLookup (Labels b) (BuildConfigLabel K) = None \<and>
      mapLookup (Labels b) (BuildConfigLabelDeprecated K) = None \<longrightarrow>
      ConfigNameForBuild K (Some b) = [])"
  by (auto simp: ConfigNameForBuild_def mapLookup_def mapIndex_def split: option.splits)

theorem ConfigNameForBuild_priority_witness:
  "ConfigNameForBuild
     \<lparr>BuildAnnotation = ''openshift.io/build.name'',
      BuildConfigPausedAnnotation = ''openshift.io/build-config.paused'',
      BuildNumberAnnotation = ''openshift.io/build.number'',
      BuildRunPolicyLabel = ''openshift.io/build.start-policy'',
      BuildConfigLabel = ''openshift.io/build-config.name'',
      BuildConfigLabelDeprecated = ''buildconfig'',
      BuildConfigAnnotation = ''openshift.io/build-config.name''\<rparr>
     (Some \<lparr>Namespace = ''ns'', ObjectMeta.Name = ''b-1'', Annotations = Some [''openshift.io/build-config.name'' \<mapsto> ''''], Labels = Some [''openshift.io/build-config.name'' \<mapsto> ''b'', ''buildconfig'' \<mapsto> ''c''], Status = \<lparr>Phase = BuildPhaseNew\<rparr>\<rparr>) = [] \<and>
   ConfigNameForBuild
     \<lparr>BuildAnnotation = ''openshift.io/build.name'',
      BuildConfigPausedAnnotation = ''openshift.io/build-config.paused'',
      BuildNumberAnnotation = ''openshift.io/build.number'',
      BuildRunPolicyLabel = ''openshift.io/build.start-policy'',
      BuildConfigLabel = ''openshift.io/build-config.name'',
      BuildConfigLabelDeprecated = ''buildconfig'',
      BuildConfigAnnotation = ''openshift.io/build-config.name''\<rparr>
     (Some \<lparr>Namespace = ''ns'', ObjectMeta.Name = ''b-1'', Annotations = None, Labels = Some [''openshift.io/build-config.name'' \<mapsto> ''b'', ''buildconfig'' \<mapsto> ''c''], Status = \<lparr>Phase = BuildPhaseNew\<rparr>\<rparr>) = ''b'' \<and>
   ConfigNameForBuild
     \<lparr>BuildAnnotation = ''openshift.io/build.name'',
      BuildConfigPausedAnnotation = ''openshift.io/build-config.paused'',
      BuildNumberAnnotation = ''openshift.io/build.number'',
      BuildRunPolicyLabel = ''openshift.io/build.start-policy'',
      BuildConfigLabel = ''openshift.io/build-config.name'',
      BuildConfigLabelDeprecated = ''buildconfig'',
      BuildConfigAnnotation = ''openshift.io/build-config.name''\<rparr>
     (Some \<lparr>Namespace = ''ns'', ObjectMeta.Name = ''b-1'', Annotations = Some Map.empty, Labels = Some [''buildconfig'' \<mapsto> ''c''], Status = \<lparr>Phase = BuildPhaseNew\<rparr>\<rparr>) = ''c'' \<and>
   ConfigNameForBuild
     \<lparr>BuildAnnotation = ''openshift.io/build.name'',
      BuildConfigPausedAnnotation = ''openshift.io/build-config.paused'',
      BuildNumberAnnotation = ''openshift.io/build.number'',
      BuildRunPolicyLabel = ''openshift.io/build.start-policy'',
      BuildConfigLabel = ''openshift.io/build-config.name'',
      BuildConfigLabelDeprecated = ''buildconfig'',
      BuildConfigAnnotation = ''openshift.io/build-config.name''\<rparr>
     (Some \<lparr>Namespace = ''ns'', ObjectMeta.Name = ''b-1'', Annotations = None, Labels = None, Status = \<lparr>Phase = BuildPhaseNew\<rparr>\<rparr>) = []"
  using ConfigNameForBuild_priority [of "\<lparr>BuildAnnotation = ''openshift.io/build.name'',
      BuildConfigPausedAnnotation = ''openshift.io/build-config.paused'',
      BuildNumberAnnotation = ''openshift.io/build.number'',
      BuildRunPolicyLabel = ''openshift.io/build.start-policy'',
      BuildConfigLabel = ''openshift.io/build-config.name'',
      BuildConfigLabelDeprecated = ''buildconfig'',
      BuildConfigAnnotation = ''openshift.io/build-config.name''\<rparr>"]
  by (simp add: mapLookup_def)

subsection \<open>Build number and version\<close>

text \<open>The parser at the ends of the 64-bit range, on signs and on bytes that are no digits.\<close>

lemma ParseInt_examples:
  "ParseInt 64 ''9223372036854775807'' 64 = (9223372036854775807, None)"
  "ParseInt 64 ''9223372036854775808'' 64 =
     (9223372036854775807, Some (NumError ''ParseInt'' ''9223372036854775808'' ErrRange))"
  "ParseInt 64 ''-9223372036854775808'' 64 = (- 9223372036854775808, None)"
  "ParseInt 64 ''+12'' 64 = (12, None)"
  "ParseInt 64 ''-'' 64 = (0, Some (NumError ''ParseInt'' ''-'' ErrSyntax))"
  "ParseInt 64 ''12a'' 64 = (0, Some (NumError ''ParseInt'' ''12a'' ErrSyntax))"
  "ParseInt 32 ''3000000000'' 0 =
     (2147483647, Some (NumError ''ParseInt'' ''3000000000'' ErrRange))"
  by (simp_all add: ParseInt_def ParseUint_def maxUint64_def)

lemma ParseInt_empty: "ParseInt IntSize [] bitSize = (0, Some (NumError ''ParseInt'' [] ErrSyntax))"
  by (simp add: ParseInt_def)

text \<open>
  The parser at a bit size of at most 64 and at 64: the loop accepts the same digits
  with the same number as long as the number stays within the bit size, so
  \<open>ParseInt\<close> at the smaller size returns a number exactly when it does at 64 bits and
  the number is within the smaller signed range.
\<close>

lemma maxVal_le: "maxVal bitSize \<le> maxVal 64"
proof -
  have "maxVal bitSize < 2 ^ 64" by (simp add: maxVal_def)
  then show ?thesis by (simp add: maxVal_def)
qed

lemma maxVal_small: "0 < bitSize \<Longrightarrow> bitSize \<le> 64 \<Longrightarrow> maxVal bitSize = 2 ^ bitSize - 1"
proof -
  assume "0 < bitSize" "bitSize \<le> 64"
  then have "(2::nat) ^ bitSize \<le> 2 ^ 64" by (intro power_increasing) simp_all
  moreover have "(0::nat) < 2 ^ bitSize" by simp
  ultimately have "(2::nat) ^ bitSize - 1 < 2 ^ 64" by linarith
  then show ?thesis by (simp add: maxVal_def)
qed

lemma parseUintLoop_step:
  "parseUintLoop bitSize (d # s) n =
     (if \<not> (48 \<le> (of_char d :: nat) \<and> (of_char d :: nat) \<le> 57) then (0, Some ErrSyntax)
      else if n \<ge> maxUint64 div 10 + 1 then (maxUint64, Some ErrRange)
      else if (n * 10 + ((of_char d :: nat) - 48)) mod 2 ^ 64 < n * 10 \<or>
              (n * 10 + ((of_char d :: nat) - 48)) mod 2 ^ 64 > maxVal bitSize
           then (maxUint64, Some ErrRange)
      else parseUintLoop bitSize s ((n * 10 + ((of_char d :: nat) - 48)) mod 2 ^ 64))"
  by (simp add: Let_def maxVal_def)

lemma parseUintLoop_grows: "parseUintLoop bitSize s n = (v, None) \<Longrightarrow> n \<le> v"
proof (induction s arbitrary: n)
  case Nil
  then show ?case by simp
next
  case (Cons d s)
  let ?n1 = "(n * 10 + ((of_char d :: nat) - 48)) mod 2 ^ 64"
  from Cons.prems have ok: "\<not> ?n1 < n * 10" and rec: "parseUintLoop bitSize s ?n1 = (v, None)"
    by (simp_all only: parseUintLoop_step split: if_splits) auto
  from Cons.IH [OF rec] ok show ?case by linarith
qed

lemma parseUintLoop_range: "parseUintLoop bitSize s n = (v, Some ErrRange) \<Longrightarrow> v = maxUint64"
proof (induction s arbitrary: n)
  case Nil
  then show ?case by simp
next
  case (Cons d s)
  let ?n1 = "(n * 10 + ((of_char d :: nat) - 48)) mod 2 ^ 64"
  from Cons.prems have "v = maxUint64 \<or> parseUintLoop bitSize s ?n1 = (v, Some ErrRange)"
    by (simp only: parseUintLoop_step split: if_splits) auto
  with Cons.IH show ?case by blast
qed

lemma parseUintLoop_width:
  "n \<le> maxVal bitSize \<Longrightarrow>
   parseUintLoop bitSize s n = (v, None) \<longleftrightarrow>
   parseUintLoop 64 s n = (v, None) \<and> v \<le> maxVal bitSize"
proof (induction s arbitrary: n)
  case Nil
  then show ?case by auto
next
  case (Cons d s)
  let ?n1 = "(n * 10 + ((of_char d :: nat) - 48)) mod 2 ^ 64"
  show ?case
  proof (cases "\<not> (48 \<le> (of_char d :: nat) \<and> (of_char d :: nat) \<le> 57) \<or>
      n \<ge> maxUint64 div 10 + 1 \<or> ?n1 < n * 10")
    case True
    then show ?thesis by (auto simp only: parseUintLoop_step split: if_splits)
  next
    case False
    show ?thesis
    proof (cases "?n1 > maxVal bitSize")
      case True
      with False have l: "parseUintLoop bitSize (d # s) n = (maxUint64, Some ErrRange)"
        by (simp only: parseUintLoop_step) auto
      have "\<not> (parseUintLoop 64 (d # s) n = (v, None) \<and> v \<le> maxVal bitSize)"
      proof
        assume a: "parseUintLoop 64 (d # s) n = (v, None) \<and> v \<le> maxVal bitSize"
        with False have "parseUintLoop 64 s ?n1 = (v, None)"
          by (simp only: parseUintLoop_step split: if_splits) auto
        from parseUintLoop_grows [OF this] True a show False by linarith
      qed
      with l show ?thesis by simp
    next
      case small: False
      then have le: "?n1 \<le> maxVal bitSize" by simp
      with maxVal_le [of bitSize] have "\<not> ?n1 > maxVal 64" by linarith
      with False have r: "parseUintLoop 64 (d # s) n = parseUintLoop 64 s ?n1"
        by (simp only: parseUintLoop_step) auto
      from False small have l: "parseUintLoop bitSize (d # s) n = parseUintLoop bitSize s ?n1"
        by (simp only: parseUintLoop_step) auto
      from Cons.IH [OF le] l r show ?thesis by simp
    qed
  qed
qed

lemma ParseUint_ok:
  "bitSize \<noteq> 0 \<Longrightarrow>
   ParseUint IntSize s bitSize = (un, None) \<longleftrightarrow> s \<noteq> [] \<and> parseUintLoop bitSize s 0 = (un, None)"
  by (cases "parseUintLoop bitSize s 0")
     (auto simp: ParseUint_def Let_def split: option.splits)

lemma ParseUint_error:
  assumes "bitSize \<noteq> 0" and "ParseUint IntSize s bitSize = (un, Some e)"
  shows "e = NumError ''ParseUint'' s ErrSyntax \<or>
         e = NumError ''ParseUint'' s ErrRange \<and> un = maxUint64"
proof (cases "s = []")
  case True
  with assms show ?thesis by (simp add: ParseUint_def)
next
  case False
  obtain n r where l: "parseUintLoop bitSize s 0 = (n, r)"
    by (cases "parseUintLoop bitSize s 0")
  with assms False obtain k where r: "r = Some k" and e: "e = NumError ''ParseUint'' s k" and un: "un = n"
    by (cases r) (auto simp: ParseUint_def Let_def)
  show ?thesis
  proof (cases k)
    case ErrSyntax
    with e show ?thesis by simp
  next
    case ErrRange
    with l r parseUintLoop_range [of bitSize s 0 n] un e show ?thesis by simp
  qed
qed

lemma half_width:
  assumes "0 < bitSize" and "bitSize \<le> 64"
  shows "(2::nat) ^ (bitSize - 1) \<le> 2 ^ 63" and "(2::nat) ^ (bitSize - 1) \<le> maxVal bitSize"
    and "(2::nat) ^ (bitSize - 1) < maxUint64"
proof -
  from assms show le: "(2::nat) ^ (bitSize - 1) \<le> 2 ^ 63"
    by (intro power_increasing) simp_all
  from assms have "(2::nat) ^ bitSize = 2 * 2 ^ (bitSize - 1)"
    by (cases bitSize) simp_all
  moreover have "(0::nat) < 2 ^ (bitSize - 1)" by simp
  ultimately have "(2::nat) ^ (bitSize - 1) \<le> 2 ^ bitSize - 1" by linarith
  with assms show "(2::nat) ^ (bitSize - 1) \<le> maxVal bitSize"
    by (simp add: maxVal_small)
  from le show "(2::nat) ^ (bitSize - 1) < maxUint64"
    by (simp add: maxUint64_def)
qed

text \<open>The input of \<open>ParseInt\<close> without its sign.\<close>

lemma ParseInt_ok:
  assumes "0 < bitSize" and "bitSize \<le> 64"
  shows "ParseInt IntSize s0 bitSize = (x, None) \<longleftrightarrow>
         s0 \<noteq> [] \<and>
         (\<exists>un. ParseUint IntSize
                 (if hd s0 = CHR ''+'' \<or> hd s0 = CHR ''-'' then tl s0 else s0) bitSize = (un, None) \<and>
               (if hd s0 = CHR ''-'' then un \<le> 2 ^ (bitSize - 1) \<and> x = - int un
                else un < 2 ^ (bitSize - 1) \<and> x = int un))"
proof (cases "s0 = []")
  case True
  then show ?thesis by (simp add: ParseInt_def)
next
  case False
  let ?s = "if hd s0 = CHR ''+'' \<or> hd s0 = CHR ''-'' then tl s0 else s0"
  from assms have b: "bitSize \<noteq> 0" by simp
  obtain un r where pu: "ParseUint IntSize ?s bitSize = (un, r)"
    by (cases "ParseUint IntSize ?s bitSize")
  show ?thesis
  proof (cases r)
    case None
    with pu False b show ?thesis
      by (auto simp: ParseInt_def Let_def)
  next
    case (Some e)
    from ParseUint_error [OF b pu [unfolded Some]]
    have "ParseInt IntSize s0 bitSize \<noteq> (x, None)"
    proof
      assume "e = NumError ''ParseUint'' ?s ErrSyntax"
      with pu Some False b show ?thesis by (simp add: ParseInt_def Let_def)
    next
      assume "e = NumError ''ParseUint'' ?s ErrRange \<and> un = maxUint64"
      with pu Some False b half_width(3) [OF assms] show ?thesis
        by (simp add: ParseInt_def Let_def)
    qed
    with pu Some show ?thesis by simp
  qed
qed

lemma ParseInt_width:
  assumes "0 < bitSize" and "bitSize \<le> 64"
  shows "ParseInt IntSize s bitSize = (x, None) \<longleftrightarrow>
         ParseInt IntSize s 64 = (x, None) \<and> - (2 ^ (bitSize - 1)) \<le> x \<and> x < 2 ^ (bitSize - 1)"
proof -
  let ?s = "if hd s = CHR ''+'' \<or> hd s = CHR ''-'' then tl s else s"
  define c :: nat where "c = 2 ^ (bitSize - 1)"
  define h :: nat where "h = 2 ^ 63"
  from assms have b: "bitSize \<noteq> 0" by simp
  from half_width [OF assms] have c_h: "c \<le> h" and c_max: "c \<le> maxVal bitSize"
    by (simp_all add: c_def h_def)
  have c_pos: "0 < c" by (simp add: c_def)
  have int_c: "int c = 2 ^ (bitSize - 1)" by (simp add: c_def)
  have w: "parseUintLoop bitSize t 0 = (un, None) \<longleftrightarrow>
           parseUintLoop 64 t 0 = (un, None) \<and> un \<le> maxVal bitSize" for un t
    by (rule parseUintLoop_width) simp
  have pu: "ParseUint IntSize t bitSize = (un, None) \<longleftrightarrow>
            ParseUint IntSize t 64 = (un, None) \<and> un \<le> maxVal bitSize" for un t
    using w [of t un] by (simp add: ParseUint_ok b)
  have at_width: "ParseInt IntSize s bitSize = (x, None) \<longleftrightarrow>
      s \<noteq> [] \<and> (\<exists>un. ParseUint IntSize ?s bitSize = (un, None) \<and>
        (if hd s = CHR ''-'' then un \<le> c \<and> x = - int un else un < c \<and> x = int un))"
    unfolding c_def by (rule ParseInt_ok [OF assms])
  have at_64: "ParseInt IntSize s 64 = (x, None) \<longleftrightarrow>
      s \<noteq> [] \<and> (\<exists>un. ParseUint IntSize ?s 64 = (un, None) \<and>
        (if hd s = CHR ''-'' then un \<le> h \<and> x = - int un else un < h \<and> x = int un))"
    using ParseInt_ok [of 64 IntSize s x] by (simp add: h_def)
  have neg: "un \<le> c \<and> x = - int un \<longleftrightarrow>
      (un \<le> h \<and> x = - int un) \<and> - int c \<le> x \<and> x < int c" for un
    using c_h c_pos by auto
  have pos: "un < c \<and> x = int un \<longleftrightarrow>
      (un < h \<and> x = int un) \<and> - int c \<le> x \<and> x < int c" for un
    using c_h c_pos by auto
  have bound: "un \<le> maxVal bitSize" if "un \<le> c" for un
    using that c_max by linarith
  have "ParseInt IntSize s bitSize = (x, None) \<longleftrightarrow>
        ParseInt IntSize s 64 = (x, None) \<and> - int c \<le> x \<and> x < int c"
  proof (cases "hd s = CHR ''-''")
    case True
    have "ParseInt IntSize s bitSize = (x, None) \<longleftrightarrow>
          s \<noteq> [] \<and> (\<exists>un. ParseUint IntSize ?s 64 = (un, None) \<and> un \<le> c \<and> x = - int un)"
      using True bound by (auto simp: at_width pu)
    also have "\<dots> \<longleftrightarrow>
          s \<noteq> [] \<and> (\<exists>un. ParseUint IntSize ?s 64 = (un, None) \<and>
            (un \<le> h \<and> x = - int un) \<and> - int c \<le> x \<and> x < int c)"
      by (simp only: neg)
    also have "\<dots> \<longleftrightarrow> ParseInt IntSize s 64 = (x, None) \<and> - int c \<le> x \<and> x < int c"
      using True by (auto simp: at_64)
    finally show ?thesis .
  next
    case False
    have "ParseInt IntSize s bitSize = (x, None) \<longleftrightarrow>
          s \<noteq> [] \<and> (\<exists>un. ParseUint IntSize ?s 64 = (un, None) \<and> un < c \<and> x = int un)"
      using False bound by (auto simp: at_width pu)
    also have "\<dots> \<longleftrightarrow>
          s \<noteq> [] \<and> (\<exists>un. ParseUint IntSize ?s 64 = (un, None) \<and>
            (un < h \<and> x = int un) \<and> - int c \<le> x \<and> x < int c)"
      by (simp only: pos)
    also have "\<dots> \<longleftrightarrow> ParseInt IntSize s 64 = (x, None) \<and> - int c \<le> x \<and> x < int c"
      using False by (auto simp: at_64)
    finally show ?thesis .
  qed
  then show ?thesis by (simp only: int_c)
qed

lemma Atoi_ParseInt: "IntSize \<noteq> 0 \<Longrightarrow> Atoi IntSize s = ParseInt IntSize s IntSize"
  by (simp add: Atoi_def ParseInt_def ParseUint_def)

lemma ParseInt_64_range:
  assumes "ParseInt IntSize s 64 = (x, None)"
  shows "- (2 ^ 63) \<le> x \<and> x < 2 ^ 63"
  using assms ParseInt_width [of 64 IntSize s x] by simp

lemma VersionForBuild_present:
  assumes "IntSize \<noteq> 0" and "mapLookup (Annotations b) (BuildNumberAnnotation K) = Some s"
  shows "VersionForBuild K IntSize (Some b) =
         (case ParseInt IntSize s IntSize of (version, Some err) \<Rightarrow> 0 | (version, None) \<Rightarrow> version)"
  using assms by (simp add: VersionForBuild_def mapIndex_def Atoi_ParseInt)

text \<open>
  Claim C7 says that \<open>VersionForBuild\<close> returns the parsed integer whenever the
  annotation is there and parses as a 64-bit integer, that is, whenever \<open>BuildNumber\<close>
  returns no error. \<open>VersionForBuild\<close> parses with \<open>strconv.Atoi\<close>, at the width of \<open>int\<close>:
  where an \<open>int\<close> is 32 bits wide and the annotation is \<open>3000000000\<close>, \<open>BuildNumber\<close>
  returns that number and no error, and \<open>VersionForBuild\<close> returns 0.
\<close>

theorem VersionForBuild_zero_on_int32:
  "BuildNumber
     \<lparr>BuildAnnotation = ''openshift.io/build.name'',
      BuildConfigPausedAnnotation = ''openshift.io/build-config.paused'',
      BuildNumberAnnotation = ''openshift.io/build.number'',
      BuildRunPolicyLabel = ''openshift.io/build.start-policy'',
      BuildConfigLabel = ''openshift.io/build-config.name'',
      BuildConfigLabelDeprecated = ''buildconfig'',
      BuildConfigAnnotation = ''openshift.io/build-config.name''\<rparr> 32
     (Some \<lparr>Namespace = ''ns'', ObjectMeta.Name = ''b-1'', Annotations = Some [''openshift.io/build.number'' \<mapsto> ''3000000000''], Labels = None, Status = \<lparr>Phase = BuildPhaseNew\<rparr>\<rparr>) = Inr (3000000000, None) \<and>
   VersionForBuild
     \<lparr>BuildAnnotation = ''openshift.io/build.name'',
      BuildConfigPausedAnnotation = ''openshift.io/build-config.paused'',
      BuildNumberAnnotation = ''openshift.io/build.number'',
      BuildRunPolicyLabel = ''openshift.io/build.start-policy'',
      BuildConfigLabel = ''openshift.io/build-config.name'',
      BuildConfigLabelDeprecated = ''buildconfig'',
      BuildConfigAnnotation = ''openshift.io/build-config.name''\<rparr> 32
     (Some \<lparr>Namespace = ''ns'', ObjectMeta.Name = ''b-1'', Annotations = Some [''openshift.io/build.number'' \<mapsto> ''3000000000''], Labels = None, Status = \<lparr>Phase = BuildPhaseNew\<rparr>\<rparr>) = 0"
  by (simp add: BuildNumber_def VersionForBuild_def mapLookup_def mapIndex_def Atoi_def
      ParseInt_def ParseUint_def maxUint64_def)

text \<open>
  Claim C7, amended. For a build without the build-number annotation, \<open>BuildNumber\<close>
  returns the error that names the namespace and the name of the build, and
  \<open>VersionForBuild\<close> returns 0. With the annotation, \<open>BuildNumber\<close> returns what
  \<open>strconv.ParseInt(s, 10, 64)\<close> returns, its error included; so \<open>BuildNumber\<close> returns
  an error exactly when the annotation is missing or does not parse as a 64-bit
  integer. \<open>VersionForBuild\<close> returns 0 for a nil build. For an \<open>int\<close> of any width up to
  64 bits it returns 0 whenever \<open>BuildNumber\<close> returns an error; and when \<open>BuildNumber\<close>
  returns a number, it returns that number if the number is within the range of \<open>int\<close>
  and 0 if it is not. Where an \<open>int\<close> is 64 bits wide it returns the number \<open>BuildNumber\<close>
  returns.
\<close>

theorem BuildNumber_and_VersionForBuild:
  "(\<forall>b. mapLookup (Annotations b) (BuildNumberAnnotation K) = None \<longrightarrow>
      BuildNumber K IntSize (Some b) =
        Inr (0, Some (Errorf (''build '' @ Namespace b @ ''/'' @ ObjectMeta.Name b @
               '' does not have '' @ BuildNumberAnnotation K @ '' annotation''))) \<and>
      VersionForBuild K IntSize (Some b) = 0) \<and>
   (\<forall>b s. mapLookup (Annotations b) (BuildNumberAnnotation K) = Some s \<longrightarrow>
      BuildNumber K IntSize (Some b) = Inr (ParseInt IntSize s 64)) \<and>
   (\<forall>b. (\<exists>n e. BuildNumber K IntSize (Some b) = Inr (n, Some e)) \<longleftrightarrow>
      mapLookup (Annotations b) (BuildNumberAnnotation K) = None \<or>
      (\<exists>s n e. mapLookup (Annotations b) (BuildNumberAnnotation K) = Some s \<and>
         ParseInt IntSize s 64 = (n, Some e))) \<and>
   VersionForBuild K IntSize None = 0 \<and>
   (0 < IntSize \<and> IntSize \<le> 64 \<longrightarrow>
      (\<forall>b n e. BuildNumber K IntSize (Some b) = Inr (n, Some e) \<longrightarrow>
         VersionForBuild K IntSize (Some b) = 0) \<and>
      (\<forall>b n. BuildNumber K IntSize (Some b) = Inr (n, None) \<longrightarrow>
         VersionForBuild K IntSize (Some b) =
           (if - (2 ^ (IntSize - 1)) \<le> n \<and> n < 2 ^ (IntSize - 1) then n else 0))) \<and>
   (IntSize = 64 \<longrightarrow>
      (\<forall>b n. BuildNumber K IntSize (Some b) = Inr (n, None) \<longrightarrow>
         VersionForBuild K IntSize (Some b) = n))"
proof -
  have absent: "BuildNumber K IntSize (Some b) =
        Inr (0, Some (Errorf (''build '' @ Namespace b @ ''/'' @ ObjectMeta.Name b @
               '' does not have '' @ BuildNumberAnnotation K @ '' annotation''))) \<and>
      VersionForBuild K IntSize (Some b) = 0"
    if "mapLookup (Annotations b) (BuildNumberAnnotation K) = None" for b
    using that
    by (simp add: BuildNumber_def VersionForBuild_def mapIndex_def Atoi_def ParseInt_empty)
  have present: "BuildNumber K IntSize (Some b) = Inr (ParseInt IntSize s 64)"
    if "mapLookup (Annotations b) (BuildNumberAnnotation K) = Some s" for b s
    using that by (simp add: BuildNumber_def)
  have iff: "(\<exists>n e. BuildNumber K IntSize (Some b) = Inr (n, Some e)) \<longleftrightarrow>
      mapLookup (Annotations b) (BuildNumberAnnotation K) = None \<or>
      (\<exists>s n e. mapLookup (Annotations b) (BuildNumberAnnotation K) = Some s \<and>
         ParseInt IntSize s 64 = (n, Some e))" for b
    by (cases "mapLookup (Annotations b) (BuildNumberAnnotation K)")
       (simp_all add: BuildNumber_def)
  have nil: "VersionForBuild K IntSize None = 0"
    by (simp add: VersionForBuild_def)
  have err: "VersionForBuild K IntSize (Some b) = 0"
    if w: "0 < IntSize" "IntSize \<le> 64" and bn: "BuildNumber K IntSize (Some b) = Inr (n, Some e)"
    for b n e
  proof (cases "mapLookup (Annotations b) (BuildNumberAnnotation K)")
    case None
    with absent show ?thesis by simp
  next
    case (Some s)
    with bn present have p64: "ParseInt IntSize s 64 = (n, Some e)" by simp
    obtain x r where p: "ParseInt IntSize s IntSize = (x, r)"
      by (cases "ParseInt IntSize s IntSize")
    have "r \<noteq> None"
    proof
      assume "r = None"
      with p ParseInt_width [OF w, of IntSize s x] have "ParseInt IntSize s 64 = (x, None)" by simp
      with p64 show False by simp
    qed
    with p w VersionForBuild_present [OF _ Some, of IntSize] show ?thesis by auto
  qed
  have ok: "VersionForBuild K IntSize (Some b) =
           (if - (2 ^ (IntSize - 1)) \<le> n \<and> n < 2 ^ (IntSize - 1) then n else 0)"
    if w: "0 < IntSize" "IntSize \<le> 64" and bn: "BuildNumber K IntSize (Some b) = Inr (n, None)"
    for b n
  proof (cases "mapLookup (Annotations b) (BuildNumberAnnotation K)")
    case None
    with absent bn show ?thesis by simp
  next
    case (Some s)
    with bn present have p64: "ParseInt IntSize s 64 = (n, None)" by simp
    from w VersionForBuild_present [OF _ Some, of IntSize]
    have v: "VersionForBuild K IntSize (Some b) =
         (case ParseInt IntSize s IntSize of (version, Some err) \<Rightarrow> 0 | (version, None) \<Rightarrow> version)"
      by simp
    show ?thesis
    proof (cases "- (2 ^ (IntSize - 1)) \<le> n \<and> n < 2 ^ (IntSize - 1)")
      case True
      with p64 ParseInt_width [OF w, of IntSize s n] have "ParseInt IntSize s IntSize = (n, None)"
        by simp
      with v True show ?thesis by simp
    next
      case False
      obtain x r where p: "ParseInt IntSize s IntSize = (x, r)"
        by (cases "ParseInt IntSize s IntSize")
      have "r \<noteq> None"
      proof
        assume "r = None"
        with p ParseInt_width [OF w, of IntSize s x]
        have "ParseInt IntSize s 64 = (x, None) \<and> - (2 ^ (IntSize - 1)) \<le> x \<and> x < 2 ^ (IntSize - 1)"
          by simp
        with p64 False show False by simp
      qed
      with p v False show ?thesis by auto
    qed
  qed
  have ok64: "VersionForBuild K IntSize (Some b) = n"
    if w: "IntSize = 64" and bn: "BuildNumber K IntSize (Some b) = Inr (n, None)" for b n
  proof (cases "mapLookup (Annotations b) (BuildNumberAnnotation K)")
    case None
    with absent bn show ?thesis by simp
  next
    case (Some s)
    with bn present have "ParseInt IntSize s 64 = (n, None)" by simp
    from ParseInt_64_range [OF this] ok [OF _ _ bn] w show ?thesis by simp
  qed
  from absent present iff nil err ok ok64 show ?thesis by blast
qed

theorem BuildNumber_and_VersionForBuild_witness:
  "BuildNumber
     \<lparr>BuildAnnotation = ''openshift.io/build.name'',
      BuildConfigPausedAnnotation = ''openshift.io/build-config.paused'',
      BuildNumberAnnotation = ''openshift.io/build.number'',
      BuildRunPolicyLabel = ''openshift.io/build.start-policy'',
      BuildConfigLabel = ''openshift.io/build-config.name'',
      BuildConfigLabelDeprecated = ''buildconfig'',
      BuildConfigAnnotation = ''openshift.io/build-config.name''\<rparr> 32
     (Some \<lparr>Namespace = ''ns'', ObjectMeta.Name = ''b-1'', Annotations = Some [''openshift.io/build.number'' \<mapsto> ''7''], Labels = None, Status = \<lparr>Phase = BuildPhaseNew\<rparr>\<rparr>) = Inr (7, None) \<and>
   VersionForBuild
     \<lparr>BuildAnnotation = ''openshift.io/build.name'',
      BuildConfigPausedAnnotation = ''openshift.io/build-config.paused'',
      BuildNumberAnnotation = ''openshift.io/build.number'',
      BuildRunPolicyLabel = ''openshift.io/build.start-policy'',
      BuildConfigLabel = ''openshift.io/build-config.name'',
      BuildConfigLabelDeprecated = ''buildconfig'',
      BuildConfigAnnotation = ''openshift.io/build-config.name''\<rparr> 32
     (Some \<lparr>Namespace = ''ns'', ObjectMeta.Name = ''b-1'', Annotations = Some [''openshift.io/build.number'' \<mapsto> ''7''], Labels = None, Status = \<lparr>Phase = BuildPhaseNew\<rparr>\<rparr>) = 7 \<and>
   BuildNumber
     \<lparr>BuildAnnotation = ''openshift.io/build.name'',
      BuildConfigPausedAnnotation = ''openshift.io/build-config.paused'',
      BuildNumberAnnotation = ''openshift.io/build.number'',
      BuildRunPolicyLabel = ''openshift.io/build.start-policy'',
      BuildConfigLabel = ''openshift.io/build-config.name'',
      BuildConfigLabelDeprecated = ''buildconfig'',
      BuildConfigAnnotation = ''openshift.io/build-config.name''\<rparr> 32
     (Some \<lparr>Namespace = ''ns'', ObjectMeta.Name = ''b-1'', Annotations = None, Labels = None, Status = \<lparr>Phase = BuildPhaseNew\<rparr>\<rparr>) =
     Inr (0, Some (Errorf ''build ns/b-1 does not have openshift.io/build.number annotation'')) \<and>
   VersionForBuild
     \<lparr>BuildAnnotation = ''openshift.io/build.name'',
      BuildConfigPausedAnnotation = ''openshift.io/build-config.paused'',
      BuildNumberAnnotation = ''openshift.io/build.number'',
      BuildRunPolicyLabel = ''openshift.io/build.start-policy'',
      BuildConfigLabel = ''openshift.io/build-config.name'',
      BuildConfigLabelDeprecated = ''buildconfig'',
      BuildConfigAnnotation = ''openshift.io/build-config.name''\<rparr> 32
     (Some \<lparr>Namespace = ''ns'', ObjectMeta.Name = ''b-1'', Annotations = None, Labels = None, Status = \<lparr>Phase = BuildPhaseNew\<rparr>\<rparr>) = 0 \<and>
   BuildNumber
     \<lparr>BuildAnnotation = ''openshift.io/build.name'',
      BuildConfigPausedAnnotation = ''openshift.io/build-config.paused'',
      BuildNumberAnnotation = ''openshift.io/build.number'',
      BuildRunPolicyLabel = ''openshift.io/build.start-policy'',
      BuildConfigLabel = ''openshift.io/build-config.name'',
      BuildConfigLabelDeprecated = ''buildconfig'',
      BuildConfigAnnotation = ''openshift.io/build-config.name''\<rparr> 32
     (Some \<lparr>Namespace = ''ns'', ObjectMeta.Name = ''b-1'', Annotations = Some [''openshift.io/build.number'' \<mapsto> ''x7''], Labels = None, Status = \<lparr>Phase = BuildPhaseNew\<rparr>\<rparr>) = Inr (0, Some (NumError ''ParseInt'' ''x7'' ErrSyntax)) \<and>
   VersionForBuild
     \<lparr>BuildAnnotation = ''openshift.io/build.name'',
      BuildConfigPausedAnnotation = ''openshift.io/build-config.paused'',
      BuildNumberAnnotation = ''openshift.io/build.number'',
      BuildRunPolicyLabel = ''openshift.io/build.start-policy'',
      BuildConfigLabel = ''openshift.io/build-config.name'',
      BuildConfigLabelDeprecated = ''buildconfig'',
      BuildConfigAnnotation = ''openshift.io/build-config.name''\<rparr> 32
     (Some \<lparr>Namespace = ''ns'', ObjectMeta.Name = ''b-1'', Annotations = Some [''openshift.io/build.number'' \<mapsto> ''x7''], Labels = None, Status = \<lparr>Phase = BuildPhaseNew\<rparr>\<rparr>) = 0 \<and>
   VersionForBuild
     \<lparr>BuildAnnotation = ''openshift.io/build.name'',
      BuildConfigPausedAnnotation = ''openshift.io/build-config.paused'',
      BuildNumberAnnotation = ''openshift.io/build.number'',
      BuildRunPolicyLabel = ''openshift.io/build.start-policy'',
      BuildConfigLabel = ''openshift.io/build-config.name'',
      BuildConfigLabelDeprecated = ''buildconfig'',
      BuildConfigAnnotation = ''openshift.io/build-config.name''\<rparr> 64
     (Some \<lparr>Namespace = ''ns'', ObjectMeta.Name = ''b-1'', Annotations = Some [''openshift.io/build.number'' \<mapsto> ''3000000000''], Labels = None, Status = \<lparr>Phase = BuildPhaseNew\<rparr>\<rparr>) = 3000000000"
  using BuildNumber_and_VersionForBuild [of "\<lparr>BuildAnnotation = ''openshift.io/build.name'',
      BuildConfigPausedAnnotation = ''openshift.io/build-config.paused'',
      BuildNumberAnnotation = ''openshift.io/build.number'',
      BuildRunPolicyLabel = ''openshift.io/build.start-policy'',
      BuildConfigLabel = ''openshift.io/build-config.name'',
      BuildConfigLabelDeprecated = ''buildconfig'',
      BuildConfigAnnotation = ''openshift.io/build-config.name''\<rparr>" 32]
    BuildNumber_and_VersionForBuild [of "\<lparr>BuildAnnotation = ''openshift.io/build.name'',
      BuildConfigPausedAnnotation = ''openshift.io/build-config.paused'',
      BuildNumberAnnotation = ''openshift.io/build.number'',
      BuildRunPolicyLabel = ''openshift.io/build.start-policy'',
      BuildConfigLabel = ''openshift.io/build-config.name'',
      BuildConfigLabelDeprecated = ''buildconfig'',
      BuildConfigAnnotation = ''openshift.io/build-config.name''\<rparr>" 64]
  by (simp add: BuildNumber_def VersionForBuild_def mapLookup_def mapIndex_def Atoi_def
      ParseInt_def ParseUint_def maxUint64_def)

subsection \<open>The builds of a build config\<close>

lemma filterItems_filter: "filterItems f bs items = items @ filter f bs"
  by (induction bs arbitrary: items) simp_all

text \<open>
  Claim C8. When the lister returns an error, \<open>BuildConfigBuilds\<close> returns that error
  and no list. When it returns none and the filter is nil, the lister's result is
  returned as it is. When it returns a list and no error and the filter is not nil, the
  result is a list with the type and list metadata of the lister's list whose items are
  the items the filter accepts, in their order. (A lister that returns neither a list
  nor an error makes the function read through a nil pointer when a filter is given.)
\<close>

theorem BuildConfigBuilds_result:
  "(\<forall>result err. c namespace \<lparr>LabelSelector = BuildConfigSelector K LabelValue name\<rparr> = (result, Some err) \<longrightarrow>
      BuildConfigBuilds c K LabelValue namespace name filterFunc = Inr (None, Some err)) \<and>
   (\<forall>result. c namespace \<lparr>LabelSelector = BuildConfigSelector K LabelValue name\<rparr> = (result, None) \<and>
      filterFunc = None \<longrightarrow>
      BuildConfigBuilds c K LabelValue namespace name filterFunc = Inr (result, None)) \<and>
   (\<forall>r f. c namespace \<lparr>LabelSelector = BuildConfigSelector K LabelValue name\<rparr> = (Some r, None) \<and>
      filterFunc = Some f \<longrightarrow>
      BuildConfigBuilds c K LabelValue namespace name filterFunc =
        Inr (Some \<lparr>TypeMeta = TypeMeta r, ListMeta = ListMeta r, Items = filter f (Items r)\<rparr>, None)) \<and>
   (\<forall>f. c namespace \<lparr>LabelSelector = BuildConfigSelector K LabelValue name\<rparr> = (None, None) \<and>
      filterFunc = Some f \<longrightarrow>
      BuildConfigBuilds c K LabelValue namespace name filterFunc = Inl NilPointerDereference)"
  by (simp add: BuildConfigBuilds_def filterItems_filter)

theorem BuildConfigBuilds_result_witness:
  "BuildConfigBuilds
     (\<lambda>ns opts. (Some \<lparr>TypeMeta = ''BuildList'', ListMeta = ''42'', Items = [\<lparr>Namespace = ''ns'', ObjectMeta.Name = ''cfg-1'', Annotations = None, Labels = Some [''openshift.io/build-config.name'' \<mapsto> ''cfg''], Status = \<lparr>Phase = BuildPhaseRunning\<rparr>\<rparr>, \<lparr>Namespace = ''ns'', ObjectMeta.Name = ''cfg-2'', Annotations = None, Labels = Some [''openshift.io/build-config.name'' \<mapsto> ''cfg''], Status = \<lparr>Phase = BuildPhaseComplete\<rparr>\<rparr>]\<rparr>, None :: string option))
     \<lparr>BuildAnnotation = ''openshift.io/build.name'',
      BuildConfigPausedAnnotation = ''openshift.io/build-config.paused'',
      BuildNumberAnnotation = ''openshift.io/build.number'',
      BuildRunPolicyLabel = ''openshift.io/build.start-policy'',
      BuildConfigLabel = ''openshift.io/build-config.name'',
      BuildConfigLabelDeprecated = ''buildconfig'',
      BuildConfigAnnotation = ''openshift.io/build-config.name''\<rparr>
     (\<lambda>n. n) ''ns'' ''cfg'' (Some (\<lambda>b. Phase (Status b) = BuildPhaseComplete)) =
   Inr (Some \<lparr>TypeMeta = ''BuildList'', ListMeta = ''42'', Items = [\<lparr>Namespace = ''ns'', ObjectMeta.Name = ''cfg-2'', Annotations = None, Labels = Some [''openshift.io/build-config.name'' \<mapsto> ''cfg''], Status = \<lparr>Phase = BuildPhaseComplete\<rparr>\<rparr>]\<rparr>, None)"
  using BuildConfigBuilds_result [of
     "(\<lambda>ns opts. (Some \<lparr>TypeMeta = ''BuildList'', ListMeta = ''42'', Items = [\<lparr>Namespace = ''ns'', ObjectMeta.Name = ''cfg-1'', Annotations = None, Labels = Some [''openshift.io/build-config.name'' \<mapsto> ''cfg''], Status = \<lparr>Phase = BuildPhaseRunning\<rparr>\<rparr>, \<lparr>Namespace = ''ns'', ObjectMeta.Name = ''cfg-2'', Annotations = None, Labels = Some [''openshift.io/build-config.name'' \<mapsto> ''cfg''], Status = \<lparr>Phase = BuildPhaseComplete\<rparr>\<rparr>]\<rparr>, None :: string option))"
     "''ns''"
     "\<lparr>BuildAnnotation = ''openshift.io/build.name'',
      BuildConfigPausedAnnotation = ''openshift.io/build-config.paused'',
      BuildNumberAnnotation = ''openshift.io/build.number'',
      BuildRunPolicyLabel = ''openshift.io/build.start-policy'',
      BuildConfigLabel = ''openshift.io/build-config.name'',
      BuildConfigLabelDeprecated = ''buildconfig'',
      BuildConfigAnnotation = ''openshift.io/build-config.name''\<rparr>"
     "\<lambda>n. n" "''cfg''" "Some (\<lambda>b. Phase (Status b) = BuildPhaseComplete)"]
  by simp

subsection \<open>Nil arguments\<close>

text \<open>
  Claim C9. \<open>IsBuildComplete\<close>, \<open>IsPaused\<close>, \<open>BuildNumber\<close> and \<open>BuildRunPolicy\<close> read
  through their pointer argument without a check: on nil they panic, and on every other
  argument they return. \<open>ConfigNameForBuild\<close>, \<open>VersionForBuild\<close> and \<open>GetBuildName\<close>
  return the empty string, 0 and the empty string on nil.
\<close>

theorem nil_argument:
  "IsBuildComplete None = Inl NilPointerDereference \<and>
   IsPaused ToLower K None = Inl NilPointerDereference \<and>
   BuildNumber K IntSize None = Inl NilPointerDereference \<and>
   BuildRunPolicy K None = Inl NilPointerDereference \<and>
   (\<forall>b. \<exists>r. IsBuildComplete (Some b) = Inr r) \<and>
   (\<forall>c. \<exists>r. IsPaused ToLower K (Some c) = Inr r) \<and>
   (\<forall>b. \<exists>r. BuildNumber K IntSize (Some b) = Inr r) \<and>
   (\<forall>b. \<exists>r. BuildRunPolicy K (Some b) = Inr r) \<and>
   ConfigNameForBuild K None = [] \<and>
   VersionForBuild K IntSize None = 0 \<and>
   GetBuildName K None = []"
  by (simp add: IsBuildComplete_def IsPaused_def BuildNumber_def BuildRunPolicy_def
      ConfigNameForBuild_def VersionForBuild_def GetBuildName_def Let_def split: option.splits)

theorem nil_argument_witness:
  "IsBuildComplete None = Inl NilPointerDereference \<and>
   IsBuildComplete
     (Some \<lparr>Namespace = ''ns'', ObjectMeta.Name = ''b-1'', Annotations = None, Labels = Some [''openshift.io/build.start-policy'' \<mapsto> ''Parallel''], Status = \<lparr>Phase = BuildPhaseComplete\<rparr>\<rparr>) = Inr True \<and>
   BuildRunPolicy
     \<lparr>BuildAnnotation = ''openshift.io/build.name'',
      BuildConfigPausedAnnotation = ''openshift.io/build-config.paused'',
      BuildNumberAnnotation = ''openshift.io/build.number'',
      BuildRunPolicyLabel = ''openshift.io/build.start-policy'',
      BuildConfigLabel = ''openshift.io/build-config.name'',
      BuildConfigLabelDeprecated = ''buildconfig'',
      BuildConfigAnnotation = ''openshift.io/build-config.name''\<rparr> None = Inl NilPointerDereference \<and>
   BuildRunPolicy
     \<lparr>BuildAnnotation = ''openshift.io/build.name'',
      BuildConfigPausedAnnotation = ''openshift.io/build-config.paused'',
      BuildNumberAnnotation = ''openshift.io/build.number'',
      BuildRunPolicyLabel = ''openshift.io/build.start-policy'',
      BuildConfigLabel = ''openshift.io/build-config.name'',
      BuildConfigLabelDeprecated = ''buildconfig'',
      BuildConfigAnnotation = ''openshift.io/build-config.name''\<rparr>
     (Some \<lparr>Namespace = ''ns'', ObjectMeta.Name = ''b-1'', Annotations = None, Labels = Some [''openshift.io/build.start-policy'' \<mapsto> ''Parallel''], Status = \<lparr>Phase = BuildPhaseComplete\<rparr>\<rparr>) = Inr BuildRunPolicyParallel"
  using nil_argument [of "\<lambda>s. s"
     "\<lparr>BuildAnnotation = ''openshift.io/build.name'',
      BuildConfigPausedAnnotation = ''openshift.io/build-config.paused'',
      BuildNumberAnnotation = ''openshift.io/build.number'',
      BuildRunPolicyLabel = ''openshift.io/build.start-policy'',
      BuildConfigLabel = ''openshift.io/build-config.name'',
      BuildConfigLabelDeprecated = ''buildconfig'',
      BuildConfigAnnotation = ''openshift.io/build-config.name''\<rparr>" 64]
  by (simp add: IsBuildComplete_def BuildRunPolicy_def mapLookup_def)

end
